theory Spec2Isabelle
  imports Complex_Main "HOL-Library.Log_Nat" "HOL-Library.Word"
begin

unbundle bit_operations_syntax

section \<open>Data model (types.ts)\<close>

datatype Basis = RECTILINEAR | DIAGONAL

datatype Bit = ZERO | ONE

text \<open>The numeric value of the enum member: \<^verbatim>\<open>ZERO = 0, ONE = 1\<close>.\<close>

fun bit_value :: "Bit \<Rightarrow> int" where
  "bit_value ZERO = 0"
| "bit_value ONE = 1"

record QBERResult =
  qber :: rat
  errors :: nat
  sampleSize :: int

text \<open>
  The fields of type \<^verbatim>\<open>number\<close> hold integers here, as the form that fills the record
  produces them with \<^verbatim>\<open>parseInt\<close>; fractions and NaN are outside the model. The counts
  of a result are lengths of arrays and counters, so natural numbers; the sample count is
  computed from the parameters and can be negative.
\<close>

record SimulationParameters =
  numQubits :: int
  qberSampleSize :: int
  errorCorrectionBlockSize :: int
  privacyAmplificationLength :: int
  enableEve :: bool
  enableSecureMode :: bool

text \<open>
  The log is an array of strings built from templates. Each \<^verbatim>\<open>log.push\<close> site of
  \<^verbatim>\<open>runBB84Simulation\<close> is one constructor, in source order, carrying the values the
  template interpolates; the rendering of numbers into text is not modelled.
\<close>

datatype log_entry =
    LogStarting
  | LogParameters SimulationParameters
  | LogAlicePrepared int
  | LogEveEnabled
  | LogEveResent
  | LogBobMeasured int
  | LogSiftingCompleted nat
  | LogNoMatchingBases
  | LogQBERCheck int nat rat
  | LogAlertKeyDiscarded rat rat
  | LogQBERHigherThanExpected rat
  | LogMinorQBER rat
  | LogKeyForErrorCorrection nat
  | LogErrorCorrectionCompleted nat
  | LogKeysDoNotMatch
  | LogKeysReconciled
  | LogCannotAmplifyEmptyKey
  | LogPrivacyAmplificationCompleted int
  | LogFinalKeyAlice string
  | LogFinalKeyBob string

text \<open>The field \<^verbatim>\<open>log\<close> of the source is \<open>log_lines\<close> here: \<open>log\<close> is the logarithm.\<close>

record SimulationResult =
  initialQubits :: int
  siftedKeyLength :: nat
  qberResult :: "QBERResult option"
  eveDetected :: bool
  errorsCorrected :: nat
  finalKeyAlice :: string
  finalKeyBob :: string
  log_lines :: "log_entry list"

text \<open>
  The only failure the function can raise by itself: \<^verbatim>\<open>Array.from({ length: n }, f)\<close>
  throws a RangeError when the length is above \<open>2^32 - 1\<close>.
\<close>

datatype error = RangeError

section \<open>Numbers: IEEE 754 binary64 arithmetic\<close>

text \<open>
  A JavaScript number is a binary64 value. The parameters are integers; the values the
  code computes from them are rationals, and every arithmetic operation returns the exact
  result rounded to the nearest value with a 53-bit significand, ties to the even one.
  \<open>binade x\<close> is the exponent \<open>e\<close> with \<open>2^e \<le> x < 2^(e+1)\<close> for positive \<open>x\<close>.
  Overflow and subnormal numbers are outside the model: the magnitudes that occur are
  quotients and products of array lengths and parameters.
\<close>

definition rne :: "rat \<Rightarrow> int" where
  "rne x = (let f = \<lfloor>x\<rfloor>; d = x - of_int f
            in if d < 1 / 2 then f else if 1 / 2 < d then f + 1
               else if even f then f else f + 1)"

definition binade :: "rat \<Rightarrow> int" where
  "binade x = (if 1 \<le> x then bitlen \<lfloor>x\<rfloor> - 1 else - bitlen (\<lceil>1 / x\<rceil> - 1))"

definition fl :: "rat \<Rightarrow> rat" where
  "fl x = (if x = 0 then 0
           else let u = 2 powi (binade \<bar>x\<bar> - 52) in of_int (rne (x / u)) * u)"

definition fdiv :: "rat \<Rightarrow> rat \<Rightarrow> rat" where
  "fdiv x y = fl (x / y)"

definition fmul :: "rat \<Rightarrow> rat \<Rightarrow> rat" where
  "fmul x y = fl (x * y)"

text \<open>constants.ts: the literal \<^verbatim>\<open>0.11\<close> denotes the binary64 value nearest to 11/100.\<close>

definition QBER_THRESHOLD :: rat where
  "QBER_THRESHOLD = fl (11 / 100)"

section \<open>Arrays and strings\<close>

text \<open>\<^verbatim>\<open>xs[i]\<close>: reading outside the array gives \<^verbatim>\<open>undefined\<close> (\<open>None\<close>).\<close>

definition js_index :: "'a list \<Rightarrow> int \<Rightarrow> 'a option" where
  "js_index xs i = (if 0 \<le> i \<and> i < int (length xs) then Some (xs ! nat i) else None)"

text \<open>
  \<^verbatim>\<open>xs.slice(start, end)\<close>: a negative index counts from the end, and both indices
  are clamped to the array.
\<close>

definition js_slice :: "'a list \<Rightarrow> int \<Rightarrow> int \<Rightarrow> 'a list" where
  "js_slice xs start fin =
     (let len = int (length xs);
          k = (if start < 0 then max (len + start) 0 else min start len);
          final = (if fin < 0 then max (len + fin) 0 else min fin len)
      in take (nat (final - k)) (drop (nat k) xs))"

text \<open>\<^verbatim>\<open>xs.slice(start)\<close>: the end defaults to the length.\<close>

definition js_slice_from :: "'a list \<Rightarrow> int \<Rightarrow> 'a list" where
  "js_slice_from xs start = js_slice xs start (int (length xs))"

text \<open>
  \<^verbatim>\<open>xs[k] = v\<close> for an index inside the array. The reconciliation loop only writes
  inside: the index it writes at is below the length of Alice's block (lemma
  \<open>first_mismatch_Some\<close>), and in a run the two keys have one length (lemmas
  \<open>sifted_keys_lengths\<close> and \<open>js_slice_from_length\<close>). An index outside, where
  JavaScript would grow the array, leaves the model's list as it is.
\<close>

definition js_assign :: "'a list \<Rightarrow> int \<Rightarrow> 'a \<Rightarrow> 'a list" where
  "js_assign xs k v = (if 0 \<le> k \<and> k < int (length xs) then xs[nat k := v] else xs)"

text \<open>\<^verbatim>\<open>s.substring(0, n)\<close>: \<open>n\<close> is clamped to \<open>[0, length s]\<close>.\<close>

definition js_substring0 :: "string \<Rightarrow> int \<Rightarrow> string" where
  "js_substring0 s n = take (nat n) s"

text \<open>\<^verbatim>\<open>ToLength\<close>, as \<^verbatim>\<open>Array.from\<close> reads the \<^verbatim>\<open>length\<close> property: negative is 0.\<close>

definition js_to_length :: "int \<Rightarrow> nat" where
  "js_to_length n = nat n"

section \<open>Random source\<close>

text \<open>
  \<^verbatim>\<open>Math.random()\<close> is the only source of randomness. A run is a function of its
  draws: \<open>rnd k\<close> is the value of the \<open>k\<close>-th call (counted from 0), and every function
  that draws takes the number of calls made so far and returns it updated.
\<close>

type_synonym random_source = "nat \<Rightarrow> rat"

definition getRandomBit :: "random_source \<Rightarrow> nat \<Rightarrow> Bit \<times> nat" where
  "getRandomBit rnd k = (if rnd k < 1 / 2 then ZERO else ONE, Suc k)"

definition getRandomBasis :: "random_source \<Rightarrow> nat \<Rightarrow> Basis \<times> nat" where
  "getRandomBasis rnd k = (if rnd k < 1 / 2 then RECTILINEAR else DIAGONAL, Suc k)"

text \<open>\<^verbatim>\<open>Array.from({ length: n }, f)\<close>: \<open>n\<close> calls of \<open>f\<close>, in index order.\<close>

fun array_from :: "nat \<Rightarrow> (nat \<Rightarrow> 'a \<times> nat) \<Rightarrow> nat \<Rightarrow> 'a list \<times> nat" where
  "array_from 0 f k = ([], k)"
| "array_from (Suc n) f k =
     (let (x, k') = f k; (xs, k'') = array_from n f k' in (x # xs, k''))"

section \<open>sha256 (qkdService.ts)\<close>

text \<open>
  \<^verbatim>\<open>crypto.subtle.digest('SHA-256', bytes)\<close> belongs to the platform and is a parameter
  \<open>digest\<close> of the model, from bytes to bytes. The function of the repository encodes the
  message, calls it and renders every byte as two lowercase hexadecimal digits.
\<close>

definition text_encode :: "string \<Rightarrow> 8 word list" where
  "text_encode message = map (\<lambda>c. word_of_nat (of_char c)) message"

definition hex_digit :: "nat \<Rightarrow> char" where
  "hex_digit d = ''0123456789abcdef'' ! d"

text \<open>\<^verbatim>\<open>b.toString(16)\<close> for a non-negative integer.\<close>

function to_string16 :: "nat \<Rightarrow> string" where
  "to_string16 n = (if n < 16 then [hex_digit n]
                    else to_string16 (n div 16) @ [hex_digit (n mod 16)])"
  by pat_completeness auto
termination
  by (relation "measure (\<lambda>n. n)") auto

declare to_string16.simps [simp del]

definition pad_start :: "nat \<Rightarrow> char \<Rightarrow> string \<Rightarrow> string" where
  "pad_start n c s = replicate (n - length s) c @ s"

definition sha256 :: "(8 word list \<Rightarrow> 8 word list) \<Rightarrow> string \<Rightarrow> string" where
  "sha256 digest message =
     (let msgBuffer = text_encode message;
          hashArray = digest msgBuffer
      in concat (map (\<lambda>b. pad_start 2 (CHR ''0'') (to_string16 (unat b))) hashArray))"

section \<open>runBB84Simulation (qkdService.ts)\<close>

subsection \<open>1 and 2: preparation, the optional intercept-resend attack, measurement\<close>

text \<open>
  The loop of Eve and the loop of Bob have the same body: at index \<open>i\<close>, the measured bit
  is the prepared bit when the two bases are equal and a fresh random bit otherwise. The
  three arrays have one length, the number of qubits (lemma \<open>transmit_lengths\<close>), and
  the loop visits the indices in order.
\<close>

fun measure_loop ::
  "random_source \<Rightarrow> Basis list \<Rightarrow> Bit list \<Rightarrow> Basis list \<Rightarrow> nat \<Rightarrow> Bit list \<times> nat" where
  "measure_loop rnd (sentBasis # sentBases) (sentBit # sentBits) (basis # bases) k =
     (let (measuredBit, k') = (if sentBasis = basis then (sentBit, k) else getRandomBit rnd k);
          (rest, k'') = measure_loop rnd sentBases sentBits bases k'
      in (measuredBit # rest, k''))"
| "measure_loop rnd _ _ _ k = ([], k)"

text \<open>The values of \<open>aliceBits\<close>, \<open>aliceBases\<close>, \<open>bobBases\<close> and \<open>bobMeasuredBits\<close>.\<close>

definition transmit ::
  "random_source \<Rightarrow> SimulationParameters \<Rightarrow> Bit list \<times> Basis list \<times> Basis list \<times> Bit list" where
  "transmit rnd params =
     (let n = js_to_length (numQubits params);
          (aliceBits, k1) = array_from n (getRandomBit rnd) 0;
          (aliceBases, k2) = array_from n (getRandomBasis rnd) k1;
          (transmittedBits, transmittedBases, k3) =
            (if enableEve params then
               (let (eveBases, k) = array_from n (getRandomBasis rnd) k2;
                    (eveMeasuredBits, k') = measure_loop rnd aliceBases aliceBits eveBases k
                in (eveMeasuredBits, eveBases, k'))
             else (aliceBits, aliceBases, k2));
          (bobBases, k4) = array_from n (getRandomBasis rnd) k3;
          (bobMeasuredBits, k5) = measure_loop rnd transmittedBases transmittedBits bobBases k4
      in (aliceBits, aliceBases, bobBases, bobMeasuredBits))"

subsection \<open>3: basis sifting\<close>

text \<open>
  The counter \<open>initialSiftedErrors\<close> of the source is written and never read; it is left
  out.
\<close>

fun sift :: "Basis list \<Rightarrow> Basis list \<Rightarrow> Bit list \<Rightarrow> Bit list \<Rightarrow> Bit list \<times> Bit list" where
  "sift (aliceBasis # aliceBases) (bobBasis # bobBases) (aliceBit # aliceBits) (bobBit # bobBits) =
     (let (siftedAliceKey, siftedBobKey) = sift aliceBases bobBases aliceBits bobBits
      in if aliceBasis = bobBasis then (aliceBit # siftedAliceKey, bobBit # siftedBobKey)
         else (siftedAliceKey, siftedBobKey))"
| "sift _ _ _ _ = ([], [])"

subsection \<open>4: parameter estimation\<close>

text \<open>
  The loop \<^verbatim>\<open>for (let i = 0; i < qberSampleCount; i++)\<close>. The counter is an integer
  here. In the source it is a binary64 number, and \<^verbatim>\<open>i++\<close> no longer advances it at
  \<open>2^53\<close>: the function below is the loop of the source for a sample count up to
  \<open>2^53\<close>, which every percentage between 0 and 100 gives (lemma
  \<open>run_sample_count_range\<close>); above it, the loop of the source does not end.
\<close>

function count_sample_errors :: "Bit list \<Rightarrow> Bit list \<Rightarrow> int \<Rightarrow> int \<Rightarrow> nat \<Rightarrow> nat" where
  "count_sample_errors siftedAliceKey siftedBobKey qberSampleCount i qberErrors =
     (if i < qberSampleCount then
        count_sample_errors siftedAliceKey siftedBobKey qberSampleCount (i + 1)
          (if js_index siftedAliceKey i \<noteq> js_index siftedBobKey i then qberErrors + 1
           else qberErrors)
      else qberErrors)"
  by pat_completeness auto
termination
  by (relation "measure (\<lambda>(a, b, n, i, e). nat (n - i))") auto

declare count_sample_errors.simps [simp del]

text \<open>
  Local names of the source that are also field names of the records carry a prime here
  (\<open>siftedKeyLength'\<close>, \<open>qber'\<close>, \<open>qberSampleSize'\<close>).
\<close>

definition sample_count :: "nat \<Rightarrow> int \<Rightarrow> int" where
  "sample_count siftedKeyLength' qberSampleSize' =
     \<lceil>fmul (of_nat siftedKeyLength') (fdiv (of_int qberSampleSize') 100)\<rceil>"

definition estimate_qber :: "Bit list \<Rightarrow> Bit list \<Rightarrow> int \<Rightarrow> QBERResult" where
  "estimate_qber siftedAliceKey siftedBobKey qberSampleSize' =
     (let qberSampleCount = sample_count (length siftedAliceKey) qberSampleSize';
          qberErrors = count_sample_errors siftedAliceKey siftedBobKey qberSampleCount 0 0;
          qber' = (if 0 < qberSampleCount then fdiv (of_nat qberErrors) (of_int qberSampleCount)
                   else 0)
      in \<lparr>qber = qber', errors = qberErrors, sampleSize = qberSampleCount\<rparr>)"

subsection \<open>5: error correction\<close>

text \<open>\<^verbatim>\<open>block.reduce((acc, bit) => acc ^ bit, 0)\<close>\<close>

definition block_parity :: "Bit list \<Rightarrow> int" where
  "block_parity block = foldl (\<lambda>acc bit. acc XOR bit_value bit) 0 block"

text \<open>
  The inner loop over \<open>j\<close>: the first index below \<open>currentBlockLength\<close> at which the two
  blocks differ, where the loop writes and breaks; \<open>None\<close> when it runs to its end.
\<close>

function first_mismatch :: "Bit list \<Rightarrow> Bit list \<Rightarrow> int \<Rightarrow> int \<Rightarrow> int option" where
  "first_mismatch aliceBlock bobBlock currentBlockLength j =
     (if j < currentBlockLength then
        (if js_index aliceBlock j \<noteq> js_index bobBlock j then Some j
         else first_mismatch aliceBlock bobBlock currentBlockLength (j + 1))
      else None)"
  by pat_completeness auto
termination
  by (relation "measure (\<lambda>(a, b, n, j). nat (n - j))") auto

declare first_mismatch.simps [simp del]

text \<open>
  One pass of the body of the outer loop, at block start \<open>i\<close>, on the pair
  (\<open>sharedKeyAfterEC\<close>, \<open>errorsCorrectedCount\<close>). The index \<open>j\<close> found by the inner loop
  is inside \<open>aliceBlock\<close>, so \<open>aliceBlock[j]\<close> is a bit.
\<close>

definition ec_block :: "int \<Rightarrow> Bit list \<Rightarrow> int \<Rightarrow> Bit list \<times> nat \<Rightarrow> Bit list \<times> nat" where
  "ec_block blockSize keyForErrorCorrectionAlice i state =
     (let (sharedKeyAfterEC, errorsCorrectedCount) = state;
          aliceBlock = js_slice keyForErrorCorrectionAlice i (i + blockSize);
          bobBlock = js_slice sharedKeyAfterEC i (i + blockSize);
          currentBlockLength = min blockSize (int (length aliceBlock))
      in if currentBlockLength = 0 then state
         else
           (let aliceParity = block_parity (js_slice aliceBlock 0 currentBlockLength);
                bobParity = block_parity (js_slice bobBlock 0 currentBlockLength)
            in if aliceParity \<noteq> bobParity then
                 (case first_mismatch aliceBlock bobBlock currentBlockLength 0 of
                    Some j \<Rightarrow>
                      (js_assign sharedKeyAfterEC (i + j) (aliceBlock ! nat j),
                       errorsCorrectedCount + 1)
                  | None \<Rightarrow> state)
               else state))"

text \<open>
  The outer loop \<^verbatim>\<open>for (let i = 0; i < preECKeyLength; i += errorCorrectionBlockSize)\<close>.
  Nothing in the source makes the step positive, so the loop need not end: \<open>None\<close> is the
  run that never leaves it.
\<close>

partial_function (option) ec_loop ::
  "int \<Rightarrow> Bit list \<Rightarrow> int \<Rightarrow> Bit list \<times> nat \<Rightarrow> (Bit list \<times> nat) option" where
  "ec_loop blockSize keyForErrorCorrectionAlice i state =
     (if i < int (length keyForErrorCorrectionAlice) then
        ec_loop blockSize keyForErrorCorrectionAlice (i + blockSize)
          (ec_block blockSize keyForErrorCorrectionAlice i state)
      else Some state)"

declare ec_loop.simps [code]

definition error_correction :: "int \<Rightarrow> Bit list \<Rightarrow> Bit list \<Rightarrow> (Bit list \<times> nat) option" where
  "error_correction blockSize keyForErrorCorrectionAlice keyForErrorCorrectionBob =
     ec_loop blockSize keyForErrorCorrectionAlice 0 (keyForErrorCorrectionBob, 0)"

text \<open>\<^verbatim>\<open>alice.every((bit, index) => bit === shared[index])\<close>\<close>

definition keys_match :: "Bit list \<Rightarrow> Bit list \<Rightarrow> bool" where
  "keys_match keyForErrorCorrectionAlice sharedKeyAfterEC =
     list_all (\<lambda>index. Some (keyForErrorCorrectionAlice ! index) = js_index sharedKeyAfterEC (int index))
       [0..<length keyForErrorCorrectionAlice]"

subsection \<open>6: privacy amplification\<close>

text \<open>\<^verbatim>\<open>sharedKeyAfterEC.join('')\<close>: every bit prints as one character.\<close>

fun bit_char :: "Bit \<Rightarrow> char" where
  "bit_char ZERO = CHR ''0''"
| "bit_char ONE = CHR ''1''"

definition desired_hex_length :: "int \<Rightarrow> int" where
  "desired_hex_length privacyAmplificationLength' = \<lceil>fdiv (of_int privacyAmplificationLength') 4\<rceil>"

text \<open>
  The end of the function, from the line after the reconciliation loop: \<open>log6\<close> is the log
  so far, \<open>siftedKeyLength'\<close> and \<open>preECKeyLength\<close> the two lengths the results report.
\<close>

definition privacy_amplification ::
  "(8 word list \<Rightarrow> 8 word list) \<Rightarrow> SimulationParameters \<Rightarrow> nat \<Rightarrow> nat \<Rightarrow> QBERResult
     \<Rightarrow> log_entry list \<Rightarrow> Bit list \<times> nat \<Rightarrow> SimulationResult" where
  "privacy_amplification digest params siftedKeyLength' preECKeyLength qberResult' log6 state =
     (let (sharedKeyAfterEC, errorsCorrectedCount) = state;
          preAmplifiedKeyString = map bit_char sharedKeyAfterEC
      in if length preAmplifiedKeyString = 0 then
           \<lparr>initialQubits = numQubits params,
            siftedKeyLength = siftedKeyLength',
            qberResult = Some qberResult',
            eveDetected = False,
            errorsCorrected = errorsCorrectedCount,
            finalKeyAlice = [],
            finalKeyBob = [],
            log_lines = log6 @ [LogCannotAmplifyEmptyKey]\<rparr>
         else
           (let hash = sha256 digest preAmplifiedKeyString;
                desiredHexLength = desired_hex_length (privacyAmplificationLength params);
                finalKeyAliceHex = js_substring0 hash desiredHexLength;
                finalKeyBobHex = js_substring0 hash desiredHexLength
            in \<lparr>initialQubits = numQubits params,
                siftedKeyLength = preECKeyLength,
                qberResult = Some qberResult',
                eveDetected = False,
                errorsCorrected = errorsCorrectedCount,
                finalKeyAlice = finalKeyAliceHex,
                finalKeyBob = finalKeyBobHex,
                log_lines = log6 @
                  [LogPrivacyAmplificationCompleted (privacyAmplificationLength params),
                   LogFinalKeyAlice finalKeyAliceHex,
                   LogFinalKeyBob finalKeyBobHex]\<rparr>))"

subsection \<open>The stages in sequence\<close>

text \<open>From the removal of the sample to the end; \<open>log4\<close> is the log after the QBER check.\<close>

definition reconcile_and_amplify ::
  "(8 word list \<Rightarrow> 8 word list) \<Rightarrow> SimulationParameters \<Rightarrow> Bit list \<Rightarrow> Bit list \<Rightarrow> QBERResult
     \<Rightarrow> log_entry list \<Rightarrow> SimulationResult option" where
  "reconcile_and_amplify digest params siftedAliceKey siftedBobKey qberResult' log4 =
     (let qberSampleCount = sampleSize qberResult';
          keyForErrorCorrectionAlice = js_slice_from siftedAliceKey qberSampleCount;
          keyForErrorCorrectionBob = js_slice_from siftedBobKey qberSampleCount;
          preECKeyLength = length keyForErrorCorrectionAlice;
          log5 = log4 @ [LogKeyForErrorCorrection preECKeyLength]
      in case error_correction (errorCorrectionBlockSize params)
                keyForErrorCorrectionAlice keyForErrorCorrectionBob of
           None \<Rightarrow> None
         | Some state \<Rightarrow>
             (let keysMatch = keys_match keyForErrorCorrectionAlice (fst state);
                  log6 = log5 @ [LogErrorCorrectionCompleted (snd state),
                                 if \<not> keysMatch then LogKeysDoNotMatch else LogKeysReconciled]
              in Some (privacy_amplification digest params (length siftedAliceKey)
                         preECKeyLength qberResult' log6 state)))"

text \<open>From the QBER estimate to the end; \<open>log2\<close> is the log after sifting.\<close>

definition estimate_and_continue ::
  "(8 word list \<Rightarrow> 8 word list) \<Rightarrow> SimulationParameters \<Rightarrow> Bit list \<Rightarrow> Bit list
     \<Rightarrow> log_entry list \<Rightarrow> SimulationResult option" where
  "estimate_and_continue digest params siftedAliceKey siftedBobKey log2 =
     (let qberResult' = estimate_qber siftedAliceKey siftedBobKey (qberSampleSize params);
          qber' = qber qberResult';
          log3 = log2 @ [LogQBERCheck (sampleSize qberResult') (errors qberResult') qber']
      in if enableSecureMode params \<and> QBER_THRESHOLD < qber' then
           Some \<lparr>initialQubits = numQubits params,
                 siftedKeyLength = length siftedAliceKey,
                 qberResult = Some qberResult',
                 eveDetected = True,
                 errorsCorrected = 0,
                 finalKeyAlice = [],
                 finalKeyBob = [],
                 log_lines = log3 @ [LogAlertKeyDiscarded qber' QBER_THRESHOLD]\<rparr>
         else
           (let log4 = log3 @
                  (if enableEve params \<and> fdiv QBER_THRESHOLD 2 < qber' \<and> \<not> enableSecureMode params
                   then [LogQBERHigherThanExpected qber']
                   else if \<not> enableEve params \<and> 0 < qber' then [LogMinorQBER qber']
                   else [])
            in reconcile_and_amplify digest params siftedAliceKey siftedBobKey qberResult' log4))"

text \<open>
  The whole function. \<open>None\<close>: the run never returns; \<open>Some (Inl e)\<close>: it raises \<open>e\<close>;
  \<open>Some (Inr r)\<close>: it returns \<open>r\<close>. The first \<^verbatim>\<open>Array.from\<close> is where a length of
  \<open>2^32\<close> or more raises.
\<close>

definition runBB84Simulation ::
  "(8 word list \<Rightarrow> 8 word list) \<Rightarrow> random_source \<Rightarrow> SimulationParameters
     \<Rightarrow> (error + SimulationResult) option" where
  "runBB84Simulation digest rnd params =
     (if 2 ^ 32 \<le> numQubits params then Some (Inl RangeError)
      else
        (let (aliceBits, aliceBases, bobBases, bobMeasuredBits) = transmit rnd params;
             log1 = [LogStarting, LogParameters params, LogAlicePrepared (numQubits params)]
                    @ (if enableEve params then [LogEveEnabled, LogEveResent] else [])
                    @ [LogBobMeasured (numQubits params)];
             (siftedAliceKey, siftedBobKey) = sift aliceBases bobBases aliceBits bobMeasuredBits;
             siftedKeyLength' = length siftedAliceKey;
             log2 = log1 @ [LogSiftingCompleted siftedKeyLength']
         in if siftedKeyLength' = 0 then
              Some (Inr \<lparr>initialQubits = numQubits params,
                         siftedKeyLength = 0,
                         qberResult = None,
                         eveDetected = False,
                         errorsCorrected = 0,
                         finalKeyAlice = [],
                         finalKeyBob = [],
                         log_lines = log2 @ [LogNoMatchingBases]\<rparr>)
            else map_option Inr
                   (estimate_and_continue digest params siftedAliceKey siftedBobKey log2)))"

section \<open>Error reconciliation as the specification words it\<close>







section \<open>Observations of a run\<close>

text \<open>The two sifted keys of the run with draws \<open>rnd\<close>.\<close>

definition sifted_keys :: "random_source \<Rightarrow> SimulationParameters \<Rightarrow> Bit list \<times> Bit list" where
  "sifted_keys rnd params =
     (case transmit rnd params of
        (aliceBits, aliceBases, bobBases, bobMeasuredBits) \<Rightarrow>
          sift aliceBases bobBases aliceBits bobMeasuredBits)"

text \<open>The log up to and including the line that reports the sifted key length \<open>n\<close>.\<close>

definition log_until_sifting :: "SimulationParameters \<Rightarrow> nat \<Rightarrow> log_entry list" where
  "log_until_sifting params n =
     [LogStarting, LogParameters params, LogAlicePrepared (numQubits params)]
     @ (if enableEve params then [LogEveEnabled, LogEveResent] else [])
     @ [LogBobMeasured (numQubits params), LogSiftingCompleted n]"

text \<open>The log after the QBER check of a run that goes on, with its optional note.\<close>

definition log_after_estimate :: "SimulationParameters \<Rightarrow> QBERResult \<Rightarrow> nat \<Rightarrow> log_entry list" where
  "log_after_estimate params q n =
     log_until_sifting params n
     @ [LogQBERCheck (sampleSize q) (errors q) (qber q)]
     @ (if enableEve params \<and> fdiv QBER_THRESHOLD 2 < qber q \<and> \<not> enableSecureMode params
        then [LogQBERHigherThanExpected (qber q)]
        else if \<not> enableEve params \<and> 0 < qber q then [LogMinorQBER (qber q)]
        else [])"

text \<open>Inputs of the examples: draws that are all below one half, and a digest of 32 bytes.\<close>

definition low_draws :: random_source where
  "low_draws k = 1 / 4"

definition constant_digest :: "8 word list \<Rightarrow> 8 word list" where
  "constant_digest bytes = replicate 32 0xab"

definition no_match_draws :: random_source where
  "no_match_draws k = (if k = 4 \<or> k = 5 then 3 / 4 else 1 / 4)"

text \<open>
  With one qubit and Eve enabled the draws are, in order: Alice's bit, Alice's basis, Eve's
  basis, Eve's bit (her basis differs), Bob's basis, Bob's bit (his basis differs from
  Eve's). Bob's basis is Alice's and his bit is not hers.
\<close>

definition eve_error_draws :: random_source where
  "eve_error_draws k = (if k = 2 \<or> k = 5 then 3 / 4 else 1 / 4)"

text \<open>
  A stand-in digest of 32 bytes that shows its input: the message, padded with zero bytes
  and cut to 32.
\<close>

definition echo_digest :: "8 word list \<Rightarrow> 8 word list" where
  "echo_digest bytes = take 32 (bytes @ replicate 32 0)"

definition default_parameters :: SimulationParameters where
  "default_parameters =
     \<lparr>numQubits = 800, qberSampleSize = 20, errorCorrectionBlockSize = 32,
      privacyAmplificationLength = 128, enableEve = False, enableSecureMode = False\<rparr>"

definition secure_eve_parameters :: SimulationParameters where
  "secure_eve_parameters =
     \<lparr>numQubits = 1, qberSampleSize = 100, errorCorrectionBlockSize = 0,
      privacyAmplificationLength = 128, enableEve = True, enableSecureMode = True\<rparr>"

text \<open>Six qubits, a percentage above 100 and a negative amplification length.\<close>

definition six_qubits_out_of_range :: SimulationParameters where
  "six_qubits_out_of_range =
     \<lparr>numQubits = 6, qberSampleSize = 150, errorCorrectionBlockSize = 32,
      privacyAmplificationLength = - 4, enableEve = False, enableSecureMode = False\<rparr>"

text \<open>A record with a negative count, a percentage above 100 and non-positive sizes.\<close>

definition malformed_parameters :: SimulationParameters where
  "malformed_parameters =
     \<lparr>numQubits = - 5, qberSampleSize = 150, errorCorrectionBlockSize = 0,
      privacyAmplificationLength = - 1, enableEve = False, enableSecureMode = False\<rparr>"

text \<open>Draws of both kinds, for runs in which some bases agree and some do not.\<close>

definition mixed_draws :: random_source where
  "mixed_draws k = (if k mod 7 = 1 \<or> k mod 7 = 3 \<or> k mod 7 = 4 then 1 / 4 else 3 / 4)"

definition six_qubits_with_eve :: SimulationParameters where
  "six_qubits_with_eve =
     \<lparr>numQubits = 6, qberSampleSize = 20, errorCorrectionBlockSize = 32,
      privacyAmplificationLength = 128, enableEve = True, enableSecureMode = False\<rparr>"

definition six_qubits_without_eve :: SimulationParameters where
  "six_qubits_without_eve =
     \<lparr>numQubits = 6, qberSampleSize = 50, errorCorrectionBlockSize = 2,
      privacyAmplificationLength = 10, enableEve = False, enableSecureMode = True\<rparr>"

text \<open>
  Six qubits with Eve enabled and nothing sampled: the sifted keys differ at two positions
  of the same block.
\<close>

definition double_error_draws :: random_source where
  "double_error_draws k =
     (if k mod 4 = 1 \<or> k mod 11 = 3 \<or> k mod 5 = 4 then 1 / 4 else 3 / 4)"

definition six_qubits_unsampled :: SimulationParameters where
  "six_qubits_unsampled =
     \<lparr>numQubits = 6, qberSampleSize = 0, errorCorrectionBlockSize = 32,
      privacyAmplificationLength = 128, enableEve = True, enableSecureMode = False\<rparr>"

definition three_qubits_long_key :: SimulationParameters where
  "three_qubits_long_key =
     \<lparr>numQubits = 3, qberSampleSize = 20, errorCorrectionBlockSize = 32,
      privacyAmplificationLength = 260, enableEve = False, enableSecureMode = False\<rparr>"

text \<open>Twenty-five qubits and a sample of 28 percent.\<close>

definition twenty_five_qubits :: SimulationParameters where
  "twenty_five_qubits =
     \<lparr>numQubits = 25, qberSampleSize = 28, errorCorrectionBlockSize = 32,
      privacyAmplificationLength = 128, enableEve = False, enableSecureMode = False\<rparr>"


section \<open>Facts about the rounding\<close>

lemma rne_of_int: "rne (of_int k) = k"
  by (simp add: rne_def)

lemma rne_bounds: "\<lfloor>x\<rfloor> \<le> rne x \<and> rne x \<le> \<lfloor>x\<rfloor> + 1"
  by (simp add: rne_def Let_def)

lemma rne_mono: "x \<le> y \<Longrightarrow> rne x \<le> rne y"
proof -
  assume xy: "x \<le> y"
  have fm: "\<lfloor>x\<rfloor> \<le> \<lfloor>y\<rfloor>" using xy by (rule floor_mono)
  show ?thesis
  proof (cases "\<lfloor>x\<rfloor> = \<lfloor>y\<rfloor>")
    case True
    then have "x - of_int \<lfloor>x\<rfloor> \<le> y - of_int \<lfloor>y\<rfloor>" using xy by simp
    with True show ?thesis by (auto simp: rne_def Let_def)
  next
    case False
    with fm have "\<lfloor>x\<rfloor> + 1 \<le> \<lfloor>y\<rfloor>" by simp
    with rne_bounds [of x] rne_bounds [of y] show ?thesis by linarith
  qed
qed


lemma binade_ge_1:
  assumes "1 \<le> x"
  shows "2 powi (binade x) \<le> x \<and> x < 2 powi (binade x + 1)"
proof -
  let ?k = "\<lfloor>x\<rfloor>"
  have k: "1 \<le> ?k" using assms by simp
  then have b: "2 ^ nat (bitlen ?k - 1) \<le> ?k \<and> ?k < 2 ^ nat (bitlen ?k)"
    using bitlen_bounds [of ?k] by simp
  have bl: "1 \<le> bitlen ?k"
    using k bitlen_bounds [of ?k] bitlen_nonneg [of ?k]
    by (smt (verit) b nat_0_iff power_0)
  have e: "binade x = bitlen ?k - 1" using assms by (simp add: binade_def)
  have "(2::rat) powi (bitlen ?k - 1) = of_int (2 ^ nat (bitlen ?k - 1))"
    using bl by (simp add: power_int_def)
  also have "\<dots> \<le> of_int ?k" using b by (simp only: of_int_le_iff)
  also have "\<dots> \<le> x" by simp
  finally have lo: "2 powi (binade x) \<le> x" by (simp add: e)
  have "x < of_int (?k + 1)" by linarith
  also have "\<dots> \<le> of_int (2 ^ nat (bitlen ?k))" using b by (simp only: of_int_le_iff) simp
  also have "\<dots> = (2::rat) powi (bitlen ?k)" using bl by (simp add: power_int_def)
  finally have "x < 2 powi (binade x + 1)" by (simp add: e)
  with lo show ?thesis by simp
qed

lemma binade_lt_1:
  assumes "0 < x" and "x < 1"
  shows "2 powi (binade x) \<le> x \<and> x < 2 powi (binade x + 1)"
proof -
  let ?m = "\<lceil>1 / x\<rceil>"
  have inv: "1 < 1 / x" using assms by simp
  then have m: "2 \<le> ?m" by linarith
  then have b: "2 ^ nat (bitlen (?m - 1) - 1) \<le> ?m - 1 \<and> ?m - 1 < 2 ^ nat (bitlen (?m - 1))"
    using bitlen_bounds [of "?m - 1"] by simp
  have bl: "1 \<le> bitlen (?m - 1)"
    using m b bitlen_nonneg [of "?m - 1"]
    by (smt (verit) nat_0_iff power_0)
  have e: "binade x = - bitlen (?m - 1)" using assms by (simp add: binade_def)
  have p1: "(2::rat) powi (bitlen (?m - 1)) = of_int (2 ^ nat (bitlen (?m - 1)))"
    using bl by (simp add: power_int_def)
  have p2: "(2::rat) powi (bitlen (?m - 1) - 1) = of_int (2 ^ nat (bitlen (?m - 1) - 1))"
    using bl by (simp add: power_int_def)
  have "1 / x \<le> of_int ?m" by simp
  also have "\<dots> \<le> of_int (2 ^ nat (bitlen (?m - 1)))"
    using b by (simp only: of_int_le_iff) simp
  finally have "1 / x \<le> 2 powi (bitlen (?m - 1))" by (simp only: p1)
  then have lo: "2 powi (binade x) \<le> x"
    using assms(1) by (simp add: e power_int_minus field_simps)
  have "(2::rat) powi (bitlen (?m - 1) - 1) \<le> of_int (?m - 1)"
    using b by (simp only: p2 of_int_le_iff)
  also have "\<dots> < 1 / x" by linarith
  finally have lt: "2 powi (bitlen (?m - 1) - 1) < 1 / x" .
  have pos: "(0::rat) < 2 powi (bitlen (?m - 1) - 1)" by simp
  have "x < 1 / 2 powi (bitlen (?m - 1) - 1)"
    using lt assms(1) pos by (simp add: field_simps)
  also have "\<dots> = (2::rat) powi (binade x + 1)"
    by (simp add: e power_int_minus_divide [symmetric])
  finally have "x < 2 powi (binade x + 1)" .
  with lo show ?thesis by simp
qed

lemma binade_bounds: "0 < x \<Longrightarrow> 2 powi (binade x) \<le> x \<and> x < 2 powi (binade x + 1)"
  using binade_ge_1 [of x] binade_lt_1 [of x] by (cases "1 \<le> x") auto


lemma fl_zero: "fl 0 = 0"
  by (simp add: fl_def)

lemma fl_nonneg: "0 \<le> x \<Longrightarrow> 0 \<le> fl x"
proof -
  assume x: "0 \<le> x"
  have u: "(0::rat) < 2 powi (binade \<bar>x\<bar> - 52)" by simp
  then have "0 \<le> x / 2 powi (binade \<bar>x\<bar> - 52)" using x by simp
  then have "rne 0 \<le> rne (x / 2 powi (binade \<bar>x\<bar> - 52))" by (rule rne_mono)
  then have "0 \<le> rne (x / 2 powi (binade \<bar>x\<bar> - 52))" using rne_of_int [of 0] by simp
  then show ?thesis using u by (simp add: fl_def Let_def)
qed

lemma binade_less:
  assumes "0 < x" and "x < 2 powi n"
  shows "binade x < n"
proof (rule ccontr)
  assume "\<not> binade x < n"
  then have "n \<le> binade x" by simp
  then have "(2::rat) powi n \<le> 2 powi binade x" by (simp add: power_int_increasing)
  with binade_bounds [OF assms(1)] assms(2) show False by linarith
qed

lemma fl_exact:
  assumes "\<bar>m\<bar> < 2 ^ 53"
  shows "fl (of_int m * 2 powi j) = of_int m * 2 powi j"
proof (cases "m = 0")
  case True
  then show ?thesis by (simp add: fl_def)
next
  case False
  let ?x = "of_int m * (2::rat) powi j"
  have x0: "?x \<noteq> 0" using False by simp
  have ax: "\<bar>?x\<bar> = of_int \<bar>m\<bar> * 2 powi j" by (simp add: abs_mult)
  have pos: "0 < \<bar>?x\<bar>" using x0 by simp
  have "of_int \<bar>m\<bar> < (2::rat) ^ 53" using assms by (metis of_int_less_numeral_power_cancel_iff)
  then have "\<bar>?x\<bar> < 2 ^ 53 * 2 powi j" unfolding ax by (simp add: mult_strict_right_mono)
  also have "\<dots> = (2::rat) powi (53 + j)" by (simp add: power_int_add)
  finally have "binade \<bar>?x\<bar> < 53 + j" using binade_less [OF pos] by simp
  then have d: "0 \<le> j - (binade \<bar>?x\<bar> - 52)" by simp
  define u where "u = (2::rat) powi (binade \<bar>?x\<bar> - 52)"
  have u0: "u \<noteq> 0" by (simp add: u_def)
  have "?x / u = of_int m * 2 powi (j - (binade \<bar>?x\<bar> - 52))"
    by (simp add: u_def power_int_diff)
  also have "\<dots> = of_int (m * 2 ^ nat (j - (binade \<bar>?x\<bar> - 52)))"
    using d by (simp add: power_int_def)
  finally have "rne (?x / u) = m * 2 ^ nat (j - (binade \<bar>?x\<bar> - 52))"
    by (simp only: rne_of_int)
  then have "of_int (rne (?x / u)) * u = of_int (m * 2 ^ nat (j - (binade \<bar>?x\<bar> - 52))) * u"
    by simp
  also have "\<dots> = of_int m * 2 powi (j - (binade \<bar>?x\<bar> - 52)) * u"
    using d by (simp add: power_int_def)
  also have "\<dots> = ?x" by (simp add: u_def power_int_diff)
  finally show ?thesis using x0 by (simp add: fl_def Let_def u_def)
qed

lemma fl_of_int: "\<bar>m\<bar> < 2 ^ 53 \<Longrightarrow> fl (of_int m) = of_int m"
  using fl_exact [of m 0] by simp

lemma fl_quarter: "\<bar>m\<bar> < 2 ^ 53 \<Longrightarrow> fl (of_int m / 4) = of_int m / 4"
  using fl_exact [of m "- 2"] by (simp add: power_int_minus_divide)

lemma fl_le_int:
  assumes "0 < x" and "x \<le> of_int k" and "k < 2 ^ 53"
  shows "fl x \<le> of_int k"
proof -
  have "x < 2 powi 53"
  proof -
    have "of_int k < (2::rat) ^ 53" using assms(3) by (metis of_int_less_numeral_power_cancel_iff)
    with assms(2) show ?thesis by simp
  qed
  then have "binade x < 53" using binade_less [OF assms(1)] by simp
  then have d: "0 \<le> 52 - binade x" by simp
  define u where "u = (2::rat) powi (binade x - 52)"
  have u0: "0 < u" by (simp add: u_def)
  have ku: "of_int k / u = of_int (k * 2 ^ nat (52 - binade x))"
  proof -
    have "of_int k / u = of_int k * 2 powi (52 - binade x)"
      by (simp add: u_def power_int_diff)
    also have "\<dots> = of_int (k * 2 ^ nat (52 - binade x))" using d by (simp add: power_int_def)
    finally show ?thesis .
  qed
  have "x / u \<le> of_int k / u" using assms(2) u0 by (simp add: divide_right_mono)
  then have "rne (x / u) \<le> rne (of_int k / u)" by (rule rne_mono)
  then have "rne (x / u) \<le> k * 2 ^ nat (52 - binade x)" by (simp only: ku rne_of_int)
  then have "(of_int (rne (x / u)) :: rat) \<le> of_int (k * 2 ^ nat (52 - binade x))"
    by (simp only: of_int_le_iff)
  then have "of_int (rne (x / u)) * u \<le> of_int (k * 2 ^ nat (52 - binade x)) * u"
    using u0 by (simp add: mult_right_mono)
  also have "\<dots> = of_int k" using ku u0 by (simp add: field_simps)
  finally show ?thesis using assms(1) by (simp add: fl_def Let_def u_def)
qed

lemma sample_count_range:
  assumes "0 \<le> p" and "p \<le> 100" and "n < 2 ^ 53"
  shows "0 \<le> sample_count n p \<and> sample_count n p \<le> int n"
proof -
  let ?r = "fdiv (of_int p) 100"
  have r0: "0 \<le> ?r" using assms(1) by (simp add: fdiv_def fl_nonneg)
  have r1: "?r \<le> 1"
  proof (cases "p = 0")
    case True
    then show ?thesis by (simp add: fdiv_def fl_zero)
  next
    case False
    with assms(1) have "0 < (of_int p :: rat) / 100" by simp
    moreover have "(of_int p :: rat) / 100 \<le> of_int 1" using assms(2) by simp
    ultimately have "fl (of_int p / 100) \<le> of_int 1" by (rule fl_le_int) simp
    then show ?thesis by (simp add: fdiv_def)
  qed
  let ?y = "fmul (of_nat n) ?r"
  have y0: "0 \<le> ?y" using r0 by (simp add: fmul_def fl_nonneg)
  have y1: "?y \<le> of_nat n"
  proof (cases "of_nat n * ?r = 0")
    case True
    then have "fl (of_nat n * ?r) = 0" by (simp only: fl_zero)
    then show ?thesis by (simp add: fmul_def)
  next
    case False
    have "0 \<le> of_nat n * ?r" using r0 by simp
    with False have "0 < of_nat n * ?r" by linarith
    moreover have "of_nat n * ?r \<le> of_int (int n)" using r1 by (simp add: mult_left_le)
    ultimately have "fl (of_nat n * ?r) \<le> of_int (int n)"
      by (rule fl_le_int) (use assms(3) in simp)
    then show ?thesis by (simp add: fmul_def)
  qed
  have "0 \<le> \<lceil>?y\<rceil>" using y0 by simp
  moreover have "\<lceil>?y\<rceil> \<le> int n" using y1 by (simp add: ceiling_le_iff)
  ultimately show ?thesis by (simp add: sample_count_def)
qed

lemma desired_hex_length_exact:
  "\<bar>n\<bar> < 2 ^ 53 \<Longrightarrow> desired_hex_length n = \<lceil>(of_int n :: rat) / 4\<rceil>"
  by (simp add: desired_hex_length_def fdiv_def fl_quarter)

section \<open>The run in terms of its sifted keys\<close>

lemma run_unfold:
  assumes "numQubits params < 2 ^ 32" and "sifted_keys rnd params = (sa, sb)"
  shows "runBB84Simulation digest rnd params =
    (if length sa = 0 then
       Some (Inr \<lparr>initialQubits = numQubits params, siftedKeyLength = 0, qberResult = None,
                  eveDetected = False, errorsCorrected = 0, finalKeyAlice = [],
                  finalKeyBob = [],
                  log_lines = log_until_sifting params 0 @ [LogNoMatchingBases]\<rparr>)
     else map_option Inr
            (estimate_and_continue digest params sa sb (log_until_sifting params (length sa))))"
  using assms
  by (auto simp: runBB84Simulation_def sifted_keys_def log_until_sifting_def
        split: prod.splits)

section \<open>The arrays of a run\<close>

lemma array_from_length: "length (fst (array_from n f k)) = n"
  by (induction n arbitrary: k) (auto simp: Let_def split: prod.splits, metis fst_conv)

lemma array_from_lengthD: "array_from n f k = (xs, k') \<Longrightarrow> length xs = n"
  using array_from_length [of n f k] by simp

lemma measure_loop_length:
  "length sentBases = length bases \<Longrightarrow> length sentBits = length bases \<Longrightarrow>
   length (fst (measure_loop rnd sentBases sentBits bases k)) = length bases"
proof (induction rnd sentBases sentBits bases k rule: measure_loop.induct)
  case (1 rnd sentBasis sentBases sentBit sentBits basis bases k)
  then show ?case by (auto simp: Let_def split: prod.splits)
qed auto


lemma measure_loop_lengthD:
  "measure_loop rnd sentBases sentBits bases k = (ys, k') \<Longrightarrow>
   length sentBases = length bases \<Longrightarrow> length sentBits = length bases \<Longrightarrow>
   length ys = length bases"
  using measure_loop_length [of sentBases bases sentBits rnd k] by simp

lemma transmit_lengths:
  assumes "transmit rnd params = (aliceBits, aliceBases, bobBases, bobMeasuredBits)"
  shows "length aliceBits = nat (numQubits params) \<and> length aliceBases = nat (numQubits params)
       \<and> length bobBases = nat (numQubits params)
       \<and> length bobMeasuredBits = nat (numQubits params)"
proof (cases "enableEve params")
  case True
  then show ?thesis
    using assms unfolding transmit_def js_to_length_def Let_def
    by (auto split: prod.splits dest!: array_from_lengthD)
       (auto dest!: measure_loop_lengthD)
next
  case False
  then show ?thesis
    using assms unfolding transmit_def js_to_length_def Let_def
    by (auto split: prod.splits dest!: array_from_lengthD)
       (auto dest!: measure_loop_lengthD)
qed



lemma sift_lengths: "length (fst (sift aliceBases bobBases aliceBits bobBits)) =
                     length (snd (sift aliceBases bobBases aliceBits bobBits))"
  by (induction aliceBases bobBases aliceBits bobBits rule: sift.induct)
     (auto simp: Let_def split: prod.splits)

lemma sift_index:
  "length aliceBases = n \<Longrightarrow> length bobBases = n \<Longrightarrow> length aliceBits = n \<Longrightarrow>
   length bobBits = n \<Longrightarrow>
   sift aliceBases bobBases aliceBits bobBits =
     (map (\<lambda>i. aliceBits ! i) (filter (\<lambda>i. aliceBases ! i = bobBases ! i) [0..<n]),
      map (\<lambda>i. bobBits ! i) (filter (\<lambda>i. aliceBases ! i = bobBases ! i) [0..<n]))"
proof (induction aliceBases bobBases aliceBits bobBits arbitrary: n rule: sift.induct)
  case (1 aliceBasis aliceBases bobBasis bobBases aliceBit aliceBits bobBit bobBits)
  then obtain m where n: "n = Suc m" by (cases n) auto
  with "1.prems" have l: "length aliceBases = m" "length bobBases = m" "length aliceBits = m"
    "length bobBits = m" by auto
  have u: "[0..<Suc m] = 0 # map Suc [0..<m]" by (simp add: upt_conv_Cons map_Suc_upt)
  show ?case
    unfolding n u using "1.IH" [OF l]
    by (simp add: filter_map comp_def)
qed auto

section \<open>The loops\<close>



lemma ec_loop_terminates:
  assumes "0 < blockSize"
  shows "\<exists>state'. ec_loop blockSize alice i state = Some state'"
proof (induction "nat (int (length alice) - i)" arbitrary: i state rule: less_induct)
  case less
  show ?case
  proof (cases "i < int (length alice)")
    case True
    with assms have "nat (int (length alice) - (i + blockSize)) < nat (int (length alice) - i)"
      by simp
    from less [OF this] True show ?thesis
      by (subst ec_loop.simps) simp
  next
    case False
    then show ?thesis by (subst ec_loop.simps) simp
  qed
qed

lemma ec_loop_invariant:
  assumes "ec_loop blockSize alice i state = Some state'"
    and "P state"
    and "\<And>j s. P s \<Longrightarrow> P (ec_block blockSize alice j s)"
  shows "P state'"
proof -
  have "blockSize = blockSize \<and> alice = alice \<and> P state \<longrightarrow> P state'"
  proof (rule ec_loop.raw_induct
          [where P = "\<lambda>b a i s y. b = blockSize \<and> a = alice \<and> P s \<longrightarrow> P y", OF _ assms(1)],
         goal_cases)
    case (1 f b a i s y)
    show ?case
    proof (intro impI, elim conjE)
      assume eq: "b = blockSize" "a = alice" and p: "P s"
      show "P y"
      proof (cases "i < int (length a)")
        case True
        with 1(2) have "f b a (i + b) (ec_block b a i s) = Some y" by simp
        from 1(1) [OF this] eq assms(3) [OF p] show ?thesis by simp
      next
        case False
        with 1(2) p show ?thesis by simp
      qed
    qed
  qed
  with assms(2) show ?thesis by simp
qed



lemma ec_block_length: "length (fst (ec_block blockSize alice i state)) = length (fst state)"
  by (cases state) (auto simp: ec_block_def Let_def js_assign_def split: option.splits)

lemma ec_loop_length:
  assumes "ec_loop blockSize alice i state = Some state'"
  shows "length (fst state') = length (fst state)"
  using assms
  by (rule ec_loop_invariant [where P = "\<lambda>s. length (fst s) = length (fst state)"])
     (simp_all add: ec_block_length)



text \<open>With a step that is not positive the loop, once entered, is never left.\<close>

lemma ec_loop_never_returns:
  assumes "blockSize \<le> 0" and "i < int (length alice)"
  shows "ec_loop blockSize alice i state = None"
proof (rule ccontr)
  assume "ec_loop blockSize alice i state \<noteq> None"
  then obtain y where y: "ec_loop blockSize alice i state = Some y" by auto
  have "\<not> (blockSize \<le> 0 \<and> i < int (length alice))"
  proof (rule ec_loop.raw_induct
          [where P = "\<lambda>b a i s y. \<not> (b \<le> 0 \<and> i < int (length a))", OF _ y], goal_cases)
    case (1 f b a i s y)
    show ?case
    proof
      assume c: "b \<le> 0 \<and> i < int (length a)"
      with 1(2) have "f b a (i + b) (ec_block b a i s) = Some y" by simp
      from 1(1) [OF this] c show False by simp
    qed
  qed
  with assms show False by simp
qed

section \<open>The hexadecimal digest\<close>

lemma hex_digit_mem: "d < 16 \<Longrightarrow> hex_digit d \<in> set ''0123456789abcdef''"
  unfolding hex_digit_def by (rule nth_mem) simp

lemma to_string16_byte:
  assumes "n < 256"
  shows "length (pad_start 2 (CHR ''0'') (to_string16 n)) = 2
       \<and> set (pad_start 2 (CHR ''0'') (to_string16 n)) \<subseteq> set ''0123456789abcdef''"
proof (cases "n < 16")
  case True
  then have "to_string16 n = [hex_digit n]" by (subst to_string16.simps) simp
  moreover have "CHR ''0'' \<in> set ''0123456789abcdef''" by simp
  ultimately show ?thesis using hex_digit_mem [OF True] by (simp add: pad_start_def)
next
  case False
  with assms have d: "n div 16 < 16" by simp
  then have "to_string16 (n div 16) = [hex_digit (n div 16)]"
    by (subst to_string16.simps) simp
  with False have "to_string16 n = [hex_digit (n div 16), hex_digit (n mod 16)]"
    by (subst to_string16.simps) simp
  moreover have "n mod 16 < 16" by simp
  ultimately show ?thesis
    using hex_digit_mem [OF d] hex_digit_mem [of "n mod 16"] by (simp add: pad_start_def)
qed

lemma unat_byte: "unat (b :: 8 word) < 256"
  using unsigned_less [of b, where ?'a = nat] by simp

lemma sha256_length: "length (sha256 digest message) = 2 * length (digest (text_encode message))"
proof -
  have "length (concat (map (\<lambda>b. pad_start 2 (CHR ''0'') (to_string16 (unat b))) bs)) =
        2 * length bs" for bs :: "8 word list"
    by (induction bs) (simp_all add: to_string16_byte unat_byte)
  then show ?thesis by (simp add: sha256_def Let_def)
qed

lemma sha256_hex: "set (sha256 digest message) \<subseteq> set ''0123456789abcdef''"
proof -
  have "set (concat (map (\<lambda>b. pad_start 2 (CHR ''0'') (to_string16 (unat b))) bs))
          \<subseteq> set ''0123456789abcdef''" for bs :: "8 word list"
    using to_string16_byte unat_byte by (induction bs) auto
  then show ?thesis by (simp add: sha256_def Let_def)
qed

section \<open>The exits of a run\<close>

lemma run_detected:
  assumes "numQubits params < 2 ^ 32" and "sifted_keys rnd params = (sa, sb)" and "sa \<noteq> []"
    and "q = estimate_qber sa sb (qberSampleSize params)"
    and "enableSecureMode params" and "QBER_THRESHOLD < qber q"
  shows "runBB84Simulation digest rnd params =
     Some (Inr \<lparr>initialQubits = numQubits params, siftedKeyLength = length sa,
                qberResult = Some q, eveDetected = True, errorsCorrected = 0,
                finalKeyAlice = [], finalKeyBob = [],
                log_lines = log_until_sifting params (length sa) @
                  [LogQBERCheck (sampleSize q) (errors q) (qber q),
                   LogAlertKeyDiscarded (qber q) QBER_THRESHOLD]\<rparr>)"
  using assms by (simp add: run_unfold estimate_and_continue_def Let_def)

lemma run_continues:
  assumes "numQubits params < 2 ^ 32" and "sifted_keys rnd params = (sa, sb)" and "sa \<noteq> []"
    and "q = estimate_qber sa sb (qberSampleSize params)"
    and "\<not> (enableSecureMode params \<and> QBER_THRESHOLD < qber q)"
    and "remA = js_slice_from sa (sampleSize q)" and "remB = js_slice_from sb (sampleSize q)"
  shows "runBB84Simulation digest rnd params =
     map_option
       (\<lambda>state. Inr (privacy_amplification digest params (length sa) (length remA) q
          (log_after_estimate params q (length sa) @
             [LogKeyForErrorCorrection (length remA),
              LogErrorCorrectionCompleted (snd state),
              if \<not> keys_match remA (fst state) then LogKeysDoNotMatch
              else LogKeysReconciled])
          state))
       (error_correction (errorCorrectionBlockSize params) remA remB)"
proof -
  have "runBB84Simulation digest rnd params =
     map_option Inr (estimate_and_continue digest params sa sb
                       (log_until_sifting params (length sa)))"
    using assms(1,2,3) by (simp add: run_unfold)
  also have "estimate_and_continue digest params sa sb (log_until_sifting params (length sa)) =
     reconcile_and_amplify digest params sa sb q (log_after_estimate params q (length sa))"
    using assms(4,5) unfolding estimate_and_continue_def Let_def log_after_estimate_def
    by auto
  also have "map_option Inr \<dots> = map_option
       (\<lambda>state. Inr (privacy_amplification digest params (length sa) (length remA) q
          (log_after_estimate params q (length sa) @
             [LogKeyForErrorCorrection (length remA),
              LogErrorCorrectionCompleted (snd state),
              if \<not> keys_match remA (fst state) then LogKeysDoNotMatch
              else LogKeysReconciled])
          state))
       (error_correction (errorCorrectionBlockSize params) remA remB)"
    unfolding reconcile_and_amplify_def Let_def assms(6,7)
    by (cases "error_correction (errorCorrectionBlockSize params)
                 (js_slice_from sa (sampleSize q)) (js_slice_from sb (sampleSize q))") simp_all
  finally show ?thesis .
qed

lemma privacy_amplification_fields:
  "initialQubits (privacy_amplification digest params n m q lg state) = numQubits params"
  "qberResult (privacy_amplification digest params n m q lg state) = Some q"
  "eveDetected (privacy_amplification digest params n m q lg state) = False"
  "errorsCorrected (privacy_amplification digest params n m q lg state) = snd state"
  "finalKeyAlice (privacy_amplification digest params n m q lg state) =
   finalKeyBob (privacy_amplification digest params n m q lg state)"
  "siftedKeyLength (privacy_amplification digest params n m q lg state) =
   (if fst state = [] then n else m)"
  "finalKeyBob (privacy_amplification digest params n m q lg state) =
   (if fst state = [] then []
    else js_substring0 (sha256 digest (map bit_char (fst state)))
           (desired_hex_length (privacyAmplificationLength params)))"
  by (cases state; simp add: privacy_amplification_def Let_def)+

lemma sifted_keys_lengths:
  "sifted_keys rnd params = (sa, sb) \<Longrightarrow> length sa = length sb"
  unfolding sifted_keys_def
  by (auto split: prod.splits) (metis fst_conv snd_conv sift_lengths)

lemma sifted_keys_no_qubits:
  "numQubits params \<le> 0 \<Longrightarrow> sifted_keys rnd params = ([], [])"
  by (simp add: sifted_keys_def transmit_def js_to_length_def)

lemma run_returns:
  assumes "numQubits params < 2 ^ 32" and "0 < errorCorrectionBlockSize params"
  shows "\<exists>r. runBB84Simulation digest rnd params = Some (Inr r)"
proof -
  obtain sa sb where s: "sifted_keys rnd params = (sa, sb)"
    by (cases "sifted_keys rnd params")
  define q where "q = estimate_qber sa sb (qberSampleSize params)"
  show ?thesis
  proof (cases "sa = []")
    case True
    then show ?thesis using run_unfold [OF assms(1) s] by simp
  next
    case ne: False
    show ?thesis
    proof (cases "enableSecureMode params \<and> QBER_THRESHOLD < qber q")
      case True
      then show ?thesis using run_detected [OF assms(1) s ne q_def] by simp
    next
      case False
      obtain state where "error_correction (errorCorrectionBlockSize params)
          (js_slice_from sa (sampleSize q)) (js_slice_from sb (sampleSize q)) = Some state"
        using ec_loop_terminates [OF assms(2)] unfolding error_correction_def by blast
      then show ?thesis
        using run_continues [OF assms(1) s ne q_def False refl refl, of digest] by simp
    qed
  qed
qed

lemma run_continues_result:
  assumes "numQubits params < 2 ^ 32" and "sifted_keys rnd params = (sa, sb)" and "sa \<noteq> []"
    and "q = estimate_qber sa sb (qberSampleSize params)"
    and "\<not> (enableSecureMode params \<and> QBER_THRESHOLD < qber q)"
    and "remA = js_slice_from sa (sampleSize q)" and "remB = js_slice_from sb (sampleSize q)"
    and "runBB84Simulation digest rnd params = Some (Inr r)"
  shows "\<exists>state. error_correction (errorCorrectionBlockSize params) remA remB = Some state
     \<and> r = privacy_amplification digest params (length sa) (length remA) q
          (log_after_estimate params q (length sa) @
             [LogKeyForErrorCorrection (length remA),
              LogErrorCorrectionCompleted (snd state),
              if \<not> keys_match remA (fst state) then LogKeysDoNotMatch
              else LogKeysReconciled])
          state"
  using run_continues [OF assms(1-7), of digest] assms(8)
  by (cases "error_correction (errorCorrectionBlockSize params) remA remB") auto


lemma js_slice_from_length:
  "length xs = length ys \<Longrightarrow> length (js_slice_from xs k) = length (js_slice_from ys k)"
  by (simp add: js_slice_from_def js_slice_def Let_def)

lemma js_slice_from_drop:
  "0 \<le> k \<Longrightarrow> js_slice_from xs k = drop (nat k) xs"
  by (simp add: js_slice_from_def js_slice_def Let_def min_def)

lemma keys_match_Nil: "keys_match [] shared"
  by (simp add: keys_match_def)

lemma run_keys_equal:
  assumes "runBB84Simulation digest rnd params = Some (Inr r)"
  shows "finalKeyAlice r = finalKeyBob r"
proof -
  have n: "numQubits params < 2 ^ 32"
    using assms by (cases "2 ^ 32 \<le> numQubits params") (simp_all add: runBB84Simulation_def)
  obtain sa sb where s: "sifted_keys rnd params = (sa, sb)"
    by (cases "sifted_keys rnd params")
  define q where "q = estimate_qber sa sb (qberSampleSize params)"
  show ?thesis
  proof (cases "sa = []")
    case True
    then show ?thesis using run_unfold [OF n s, of digest] assms by auto
  next
    case ne: False
    show ?thesis
    proof (cases "enableSecureMode params \<and> QBER_THRESHOLD < qber q")
      case True
      then show ?thesis using run_detected [OF n s ne q_def, of digest] assms by auto
    next
      case False
      from run_continues_result [OF n s ne q_def False refl refl assms]
      show ?thesis by (auto simp: privacy_amplification_fields)
    qed
  qed
qed


lemma run_completed:
  assumes "numQubits params < 2 ^ 32" and "sifted_keys rnd params = (sa, sb)" and "sa \<noteq> []"
    and "q = estimate_qber sa sb (qberSampleSize params)"
    and "\<not> (enableSecureMode params \<and> QBER_THRESHOLD < qber q)"
    and "remA = js_slice_from sa (sampleSize q)" and "remB = js_slice_from sb (sampleSize q)"
    and "error_correction (errorCorrectionBlockSize params) remA remB = Some state"
  shows "runBB84Simulation digest rnd params =
     Some (Inr (privacy_amplification digest params (length sa) (length remA) q
          (log_after_estimate params q (length sa) @
             [LogKeyForErrorCorrection (length remA),
              LogErrorCorrectionCompleted (snd state),
              if \<not> keys_match remA (fst state) then LogKeysDoNotMatch
              else LogKeysReconciled])
          state))"
  using run_continues [OF assms(1-7), of digest] assms(8) by simp

lemma sifted_keys_length_le:
  assumes "sifted_keys rnd params = (sa, sb)"
  shows "length sa \<le> nat (numQubits params)"
proof -
  obtain aliceBits aliceBases bobBases bobMeasuredBits where
    t: "transmit rnd params = (aliceBits, aliceBases, bobBases, bobMeasuredBits)"
    by (cases "transmit rnd params") auto
  let ?n = "nat (numQubits params)"
  from transmit_lengths [OF t]
  have l: "length aliceBases = ?n" "length bobBases = ?n" "length aliceBits = ?n"
    "length bobMeasuredBits = ?n" by simp_all
  from assms t sift_index [OF l]
  have "sa = map (\<lambda>i. aliceBits ! i) (filter (\<lambda>i. aliceBases ! i = bobBases ! i) [0..<?n])"
    by (simp add: sifted_keys_def)
  moreover have "length (filter (\<lambda>i. aliceBases ! i = bobBases ! i) [0..<?n]) \<le> length [0..<?n]"
    by (rule length_filter_le)
  ultimately show ?thesis by simp
qed

lemma run_sample_count_range:
  assumes "numQubits params < 2 ^ 32" and "0 \<le> qberSampleSize params"
    and "qberSampleSize params \<le> 100" and "sifted_keys rnd params = (sa, sb)"
  shows "0 \<le> sampleSize (estimate_qber sa sb (qberSampleSize params))
       \<and> sampleSize (estimate_qber sa sb (qberSampleSize params)) \<le> int (length sa)"
proof -
  have "int (length sa) \<le> int (nat (numQubits params))"
    using sifted_keys_length_le [OF assms(4)] by (simp only: of_nat_le_iff)
  also have "\<dots> < 2 ^ 32" using assms(1) by simp
  finally have "int (length sa) < 2 ^ 32" .
  then have "int (length sa) < 2 ^ 53" by simp
  then have "length sa < 2 ^ 53" by (metis of_nat_less_numeral_power_cancel_iff)
  from sample_count_range [OF assms(2,3) this] show ?thesis
    by (simp add: estimate_qber_def Let_def)
qed

text \<open>
  A run that reaches the reconciliation with something left to reconcile and a block size
  that is not positive never returns.
\<close>

lemma run_never_returns:
  assumes "numQubits params < 2 ^ 32" and "sifted_keys rnd params = (sa, sb)" and "sa \<noteq> []"
    and "q = estimate_qber sa sb (qberSampleSize params)"
    and "\<not> (enableSecureMode params \<and> QBER_THRESHOLD < qber q)"
    and "js_slice_from sa (sampleSize q) \<noteq> []"
    and "errorCorrectionBlockSize params \<le> 0"
  shows "runBB84Simulation digest rnd params = None"
proof -
  have "error_correction (errorCorrectionBlockSize params)
          (js_slice_from sa (sampleSize q)) (js_slice_from sb (sampleSize q)) = None"
    unfolding error_correction_def using assms(6,7) by (intro ec_loop_never_returns) auto
  with run_continues [OF assms(1-5) refl refl, of digest] show ?thesis by simp
qed

section \<open>The reconciliation loop and the specification\<close>
























section \<open>The empty-sift exit\<close>

text \<open>
  Claim C8. When the sifted key is empty, \<open>runBB84Simulation\<close> returns at once: the
  result has \<open>siftedKeyLength = 0\<close>, no \<open>qberResult\<close>, \<open>eveDetected = false\<close>,
  \<open>errorsCorrected = 0\<close> and two empty final keys, and its log ends with the line that
  reports no matching bases, right after the line of the sifting: it holds no line of the
  QBER estimate, of the reconciliation or of the privacy amplification. The result does
  not depend on the block size, for which the reconciliation loop need not end.
\<close>

theorem empty_sift_short_circuit:
  assumes "numQubits params < 2 ^ 32" and "fst (sifted_keys rnd params) = []"
  shows "runBB84Simulation digest rnd params =
     Some (Inr \<lparr>initialQubits = numQubits params, siftedKeyLength = 0, qberResult = None,
                eveDetected = False, errorsCorrected = 0, finalKeyAlice = [],
                finalKeyBob = [],
                log_lines = log_until_sifting params 0 @ [LogNoMatchingBases]\<rparr>)"
proof -
  obtain sa sb where s: "sifted_keys rnd params = (sa, sb)"
    by (cases "sifted_keys rnd params")
  with assms(2) have "length sa = 0" by simp
  with run_unfold [OF assms(1) s] show ?thesis by simp
qed

text \<open>
  Two qubits, Bob's bases both different from Alice's, and a block size of 0.
\<close>

theorem empty_sift_short_circuit_witness:
  "numQubits (default_parameters\<lparr>numQubits := 2, errorCorrectionBlockSize := 0\<rparr>) < 2 ^ 32
   \<and> fst (sifted_keys no_match_draws
            (default_parameters\<lparr>numQubits := 2, errorCorrectionBlockSize := 0\<rparr>)) = []
   \<and> runBB84Simulation constant_digest no_match_draws
        (default_parameters\<lparr>numQubits := 2, errorCorrectionBlockSize := 0\<rparr>) =
      Some (Inr \<lparr>initialQubits = 2, siftedKeyLength = 0, qberResult = None,
                 eveDetected = False, errorsCorrected = 0, finalKeyAlice = [],
                 finalKeyBob = [],
                 log_lines =
                   [LogStarting,
                    LogParameters
                      (default_parameters\<lparr>numQubits := 2, errorCorrectionBlockSize := 0\<rparr>),
                    LogAlicePrepared 2, LogBobMeasured 2, LogSiftingCompleted 0,
                    LogNoMatchingBases]\<rparr>)"
proof -
  let ?p = "default_parameters\<lparr>numQubits := 2, errorCorrectionBlockSize := 0\<rparr>"
  have h1: "numQubits ?p < 2 ^ 32" by (simp add: default_parameters_def)
  have h2: "fst (sifted_keys no_match_draws ?p) = []" by code_simp
  show ?thesis
    using empty_sift_short_circuit [OF h1 h2, of constant_digest] h1 h2
    by (simp add: log_until_sifting_def default_parameters_def)
qed

section \<open>The eavesdropper-detected exit\<close>

text \<open>
  Claim C1. In a run with \<open>enableSecureMode = true\<close> that reaches the QBER estimate (the
  sifted key is not empty) and computes a QBER above \<open>QBER_THRESHOLD\<close>, the function
  returns at that point: \<open>eveDetected = true\<close>, both final keys are empty and
  \<open>errorsCorrected = 0\<close>. The log ends with the alert, right after the line of the QBER
  check, so neither the reconciliation nor the privacy amplification has run; the result
  does not depend on the block size or on the digest.
\<close>

theorem secure_mode_discards_key:
  assumes "numQubits params < 2 ^ 32"
    and "sifted_keys rnd params = (siftedAliceKey, siftedBobKey)"
    and "siftedAliceKey \<noteq> []"
    and "q = estimate_qber siftedAliceKey siftedBobKey (qberSampleSize params)"
    and "enableSecureMode params" and "QBER_THRESHOLD < qber q"
  shows "runBB84Simulation digest rnd params =
     Some (Inr \<lparr>initialQubits = numQubits params, siftedKeyLength = length siftedAliceKey,
                qberResult = Some q, eveDetected = True, errorsCorrected = 0,
                finalKeyAlice = [], finalKeyBob = [],
                log_lines = log_until_sifting params (length siftedAliceKey) @
                  [LogQBERCheck (sampleSize q) (errors q) (qber q),
                   LogAlertKeyDiscarded (qber q) QBER_THRESHOLD]\<rparr>)"
  using assms by (rule run_detected)

text \<open>
  One qubit, Eve enabled, the whole sifted key sampled, and Bob's bit different from
  Alice's: the QBER is 1. The block size is 0, for which the reconciliation loop would
  not end.
\<close>

theorem secure_mode_discards_key_witness:
  "numQubits secure_eve_parameters < 2 ^ 32
   \<and> sifted_keys eve_error_draws secure_eve_parameters = ([ZERO], [ONE])
   \<and> estimate_qber [ZERO] [ONE] (qberSampleSize secure_eve_parameters) =
       \<lparr>qber = 1, errors = 1, sampleSize = 1\<rparr>
   \<and> enableSecureMode secure_eve_parameters
   \<and> QBER_THRESHOLD = 7926335344172073 / 72057594037927936
   \<and> errorCorrectionBlockSize secure_eve_parameters = 0
   \<and> runBB84Simulation constant_digest eve_error_draws secure_eve_parameters =
       Some (Inr \<lparr>initialQubits = 1, siftedKeyLength = 1,
                  qberResult = Some \<lparr>qber = 1, errors = 1, sampleSize = 1\<rparr>,
                  eveDetected = True, errorsCorrected = 0,
                  finalKeyAlice = [], finalKeyBob = [],
                  log_lines =
                    [LogStarting, LogParameters secure_eve_parameters, LogAlicePrepared 1,
                     LogEveEnabled, LogEveResent, LogBobMeasured 1, LogSiftingCompleted 1,
                     LogQBERCheck 1 1 1,
                     LogAlertKeyDiscarded 1 (7926335344172073 / 72057594037927936)]\<rparr>)"
proof -
  have h1: "numQubits secure_eve_parameters < 2 ^ 32" by (simp add: secure_eve_parameters_def)
  have h2: "sifted_keys eve_error_draws secure_eve_parameters = ([ZERO], [ONE])" by code_simp
  have h3: "[ZERO] \<noteq> []" by simp
  have h4: "\<lparr>qber = 1, errors = 1, sampleSize = 1\<rparr> =
            estimate_qber [ZERO] [ONE] (qberSampleSize secure_eve_parameters)" by code_simp
  have h5: "enableSecureMode secure_eve_parameters" by (simp add: secure_eve_parameters_def)
  have t: "QBER_THRESHOLD = 7926335344172073 / 72057594037927936" by code_simp
  have h6: "QBER_THRESHOLD < qber \<lparr>qber = 1, errors = 1, sampleSize = 1\<rparr>"
    by (simp add: t)
  show ?thesis
    using secure_mode_discards_key [OF h1 h2 h3 h4 h5 h6, of constant_digest] h1 h2 h4 h5 t
    by (simp add: log_until_sifting_def secure_eve_parameters_def)
qed

section \<open>Privacy amplification\<close>

text \<open>
  Claim C2 says that the final keys have exactly \<open>ceil(privacyAmplificationLength / 4)\<close>
  characters for every positive \<open>privacyAmplificationLength\<close>. The digest has 64
  hexadecimal characters and \<^verbatim>\<open>substring\<close> cannot lengthen it: a request of 260 bits
  gives keys of 64 characters, not 65.
\<close>

theorem long_key_request_capped:
  "map_option (map_sum id (\<lambda>r. (length (finalKeyAlice r), length (finalKeyBob r))))
     (runBB84Simulation constant_digest low_draws three_qubits_long_key) = Some (Inr (64, 64))
   \<and> \<lceil>(of_int (privacyAmplificationLength three_qubits_long_key) :: rat) / 4\<rceil> = 65"
  by code_simp

text \<open>
  Claim C2, amended. In a run that reaches privacy amplification with a non-empty
  reconciled key, with a digest of 32 bytes and a positive
  \<open>privacyAmplificationLength\<close> (below \<open>2^53\<close>, as an integer held in a number is), both
  final keys are the lowercase hexadecimal digest of the serialized reconciled key cut to
  its first \<open>ceil(privacyAmplificationLength / 4)\<close> characters: their length is the
  smaller of 64 and \<open>ceil(privacyAmplificationLength / 4)\<close>, so it is exactly that
  number up to 256 bits and 64 above; and \<open>finalKeyAlice\<close> equals \<open>finalKeyBob\<close>.
\<close>

theorem final_keys_are_truncated_digest:
  assumes "numQubits params < 2 ^ 32"
    and "sifted_keys rnd params = (siftedAliceKey, siftedBobKey)"
    and "siftedAliceKey \<noteq> []"
    and "q = estimate_qber siftedAliceKey siftedBobKey (qberSampleSize params)"
    and "\<not> (enableSecureMode params \<and> QBER_THRESHOLD < qber q)"
    and "error_correction (errorCorrectionBlockSize params)
           (js_slice_from siftedAliceKey (sampleSize q))
           (js_slice_from siftedBobKey (sampleSize q)) = Some (sharedKeyAfterEC, corrected)"
    and "sharedKeyAfterEC \<noteq> []"
    and "\<forall>bytes. length (digest bytes) = 32"
    and "0 < privacyAmplificationLength params"
    and "privacyAmplificationLength params < 2 ^ 53"
  shows "\<exists>r. runBB84Simulation digest rnd params = Some (Inr r)
     \<and> finalKeyAlice r =
         take (nat \<lceil>(of_int (privacyAmplificationLength params) :: rat) / 4\<rceil>)
           (sha256 digest (map bit_char sharedKeyAfterEC))
     \<and> finalKeyBob r = finalKeyAlice r
     \<and> length (finalKeyAlice r) =
         min 64 (nat \<lceil>(of_int (privacyAmplificationLength params) :: rat) / 4\<rceil>)
     \<and> set (finalKeyAlice r) \<subseteq> set ''0123456789abcdef''"
proof -
  let ?hash = "sha256 digest (map bit_char sharedKeyAfterEC)"
  let ?n = "nat \<lceil>(of_int (privacyAmplificationLength params) :: rat) / 4\<rceil>"
  from run_completed [OF assms(1-5) refl refl assms(6), of digest]
  obtain r where r: "runBB84Simulation digest rnd params = Some (Inr r)"
    and k: "finalKeyBob r =
      (if sharedKeyAfterEC = [] then []
       else js_substring0 ?hash (desired_hex_length (privacyAmplificationLength params)))"
    and e: "finalKeyAlice r = finalKeyBob r"
    by (simp add: privacy_amplification_fields)
  have "\<bar>privacyAmplificationLength params\<bar> < 2 ^ 53" using assms(9,10) by simp
  then have "desired_hex_length (privacyAmplificationLength params) =
             \<lceil>(of_int (privacyAmplificationLength params) :: rat) / 4\<rceil>"
    by (rule desired_hex_length_exact)
  with k assms(7) have b: "finalKeyBob r = take ?n ?hash" by (simp add: js_substring0_def)
  have "length ?hash = 64" using assms(8) by (simp add: sha256_length)
  then have l: "length (take ?n ?hash) = min 64 ?n" by simp
  have "set (take ?n ?hash) \<subseteq> set ?hash" by (rule set_take_subset)
  then have h: "set (take ?n ?hash) \<subseteq> set ''0123456789abcdef''"
    using sha256_hex [of digest "map bit_char sharedKeyAfterEC"] by (rule subset_trans)
  from r e b l h show ?thesis by auto
qed

text \<open>
  Six qubits without Eve and a request of 10 bits: the reconciled key is the one bit 1,
  serialized as the character 1 (byte 31 in hexadecimal), and the keys are the first
  three characters of the digest.
\<close>

theorem final_keys_are_truncated_digest_witness:
  "numQubits six_qubits_without_eve < 2 ^ 32
   \<and> sifted_keys mixed_draws six_qubits_without_eve = ([ONE, ZERO, ONE], [ONE, ZERO, ONE])
   \<and> estimate_qber [ONE, ZERO, ONE] [ONE, ZERO, ONE] (qberSampleSize six_qubits_without_eve) =
       \<lparr>qber = 0, errors = 0, sampleSize = 2\<rparr>
   \<and> \<not> QBER_THRESHOLD < 0
   \<and> error_correction (errorCorrectionBlockSize six_qubits_without_eve)
         (js_slice_from [ONE, ZERO, ONE] 2) (js_slice_from [ONE, ZERO, ONE] 2) = Some ([ONE], 0)
   \<and> (\<forall>bytes. length (echo_digest bytes) = 32)
   \<and> privacyAmplificationLength six_qubits_without_eve = 10
   \<and> (\<exists>r. runBB84Simulation echo_digest mixed_draws six_qubits_without_eve = Some (Inr r)
          \<and> finalKeyAlice r = ''310'' \<and> finalKeyBob r = ''310'')"
proof -
  let ?p = six_qubits_without_eve
  have h1: "numQubits ?p < 2 ^ 32" by (simp add: six_qubits_without_eve_def)
  have h2: "sifted_keys mixed_draws ?p = ([ONE, ZERO, ONE], [ONE, ZERO, ONE])" by code_simp
  have h3: "[ONE, ZERO, ONE] \<noteq> []" by simp
  have h4: "\<lparr>qber = 0, errors = 0, sampleSize = 2\<rparr> =
            estimate_qber [ONE, ZERO, ONE] [ONE, ZERO, ONE] (qberSampleSize ?p)" by code_simp
  have t: "\<not> QBER_THRESHOLD < 0" by code_simp
  then have h5: "\<not> (enableSecureMode ?p \<and>
                     QBER_THRESHOLD < qber \<lparr>qber = 0, errors = 0, sampleSize = 2\<rparr>)" by simp
  have e: "error_correction (errorCorrectionBlockSize ?p)
             (js_slice_from [ONE, ZERO, ONE] 2) (js_slice_from [ONE, ZERO, ONE] 2) =
           Some ([ONE], 0)" by code_simp
  then have h6: "error_correction (errorCorrectionBlockSize ?p)
      (js_slice_from [ONE, ZERO, ONE] (sampleSize \<lparr>qber = 0, errors = 0, sampleSize = 2\<rparr>))
      (js_slice_from [ONE, ZERO, ONE] (sampleSize \<lparr>qber = 0, errors = 0, sampleSize = 2\<rparr>)) =
      Some ([ONE], 0)" by simp
  have h7: "[ONE] \<noteq> []" by simp
  have h8: "\<forall>bytes. length (echo_digest bytes) = 32" by (auto simp: echo_digest_def)
  have l: "privacyAmplificationLength ?p = 10" by (simp add: six_qubits_without_eve_def)
  have h9: "0 < privacyAmplificationLength ?p" and h10: "privacyAmplificationLength ?p < 2 ^ 53"
    by (simp_all add: l)
  have v: "take (nat \<lceil>(of_int (privacyAmplificationLength ?p) :: rat) / 4\<rceil>)
             (sha256 echo_digest (map bit_char [ONE])) = ''310''" by code_simp
  show ?thesis
    using final_keys_are_truncated_digest [OF h1 h2 h3 h4 h5 h6 h7 h8 h9 h10]
      h1 h2 h4 t e h8 l v
    by (simp del: One_nat_def) metis
qed

section \<open>A reconciliation that leaves errors\<close>

text \<open>
  Claim C3 says that after a reconciliation that leaves the keys different, some completed
  run returns \<open>finalKeyAlice\<close> different from \<open>finalKeyBob\<close>. No run does: the function
  computes one digest, of Bob's corrected key, and cuts both final keys from it.
\<close>

theorem final_keys_never_differ:
  "\<not> (\<exists>digest rnd params r.
         runBB84Simulation digest rnd params = Some (Inr r) \<and> finalKeyAlice r \<noteq> finalKeyBob r)"
  using run_keys_equal by blast

text \<open>
  Claim C3, amended. When the corrected key of Bob does not match the key of Alice after
  the reconciliation, the run logs the mismatch and goes on to privacy amplification with
  Bob's corrected key: both final keys are the truncated digest of that key, so
  \<open>finalKeyAlice\<close> equals \<open>finalKeyBob\<close> in this case as well, and Alice's own key bits
  do not enter her final key.
\<close>

theorem mismatch_proceeds_with_bob_key:
  assumes "numQubits params < 2 ^ 32"
    and "sifted_keys rnd params = (siftedAliceKey, siftedBobKey)"
    and "siftedAliceKey \<noteq> []"
    and "q = estimate_qber siftedAliceKey siftedBobKey (qberSampleSize params)"
    and "\<not> (enableSecureMode params \<and> QBER_THRESHOLD < qber q)"
    and "keyForErrorCorrectionAlice = js_slice_from siftedAliceKey (sampleSize q)"
    and "keyForErrorCorrectionBob = js_slice_from siftedBobKey (sampleSize q)"
    and "error_correction (errorCorrectionBlockSize params)
           keyForErrorCorrectionAlice keyForErrorCorrectionBob =
         Some (sharedKeyAfterEC, corrected)"
    and "\<not> keys_match keyForErrorCorrectionAlice sharedKeyAfterEC"
  shows "\<exists>r. runBB84Simulation digest rnd params = Some (Inr r)
     \<and> LogKeysDoNotMatch \<in> set (log_lines r)
     \<and> finalKeyBob r =
         js_substring0 (sha256 digest (map bit_char sharedKeyAfterEC))
           (desired_hex_length (privacyAmplificationLength params))
     \<and> finalKeyAlice r = finalKeyBob r"
proof -
  have "keyForErrorCorrectionAlice \<noteq> []"
    using assms(9) keys_match_Nil by auto
  moreover have "length sharedKeyAfterEC = length keyForErrorCorrectionBob"
    using assms(8) ec_loop_length unfolding error_correction_def by fastforce
  moreover have "length keyForErrorCorrectionBob = length keyForErrorCorrectionAlice"
    unfolding assms(6,7)
    using sifted_keys_lengths [OF assms(2)] js_slice_from_length by metis
  ultimately have ne: "sharedKeyAfterEC \<noteq> []" by auto
  let ?r = "privacy_amplification digest params (length siftedAliceKey)
      (length keyForErrorCorrectionAlice) q
      (log_after_estimate params q (length siftedAliceKey) @
         [LogKeyForErrorCorrection (length keyForErrorCorrectionAlice),
          LogErrorCorrectionCompleted corrected, LogKeysDoNotMatch])
      (sharedKeyAfterEC, corrected)"
  have r: "runBB84Simulation digest rnd params = Some (Inr ?r)"
    using run_completed [OF assms(1-8), of digest] assms(9) by simp
  have "LogKeysDoNotMatch \<in> set (log_lines ?r)"
    using ne by (simp add: privacy_amplification_def Let_def)
  with r ne show ?thesis by (auto simp: privacy_amplification_fields)
qed

text \<open>
  Six qubits with Eve, nothing sampled, one block: Bob's key 11001 differs from Alice's
  10000 at two positions, the parities agree and nothing is corrected. With the digest
  that shows its input, both final keys start with the bytes of the text 11001.
\<close>

theorem mismatch_proceeds_with_bob_key_witness:
  "numQubits six_qubits_unsampled < 2 ^ 32
   \<and> sifted_keys double_error_draws six_qubits_unsampled =
       ([ONE, ZERO, ZERO, ZERO, ZERO], [ONE, ONE, ZERO, ZERO, ONE])
   \<and> estimate_qber [ONE, ZERO, ZERO, ZERO, ZERO] [ONE, ONE, ZERO, ZERO, ONE]
         (qberSampleSize six_qubits_unsampled) = \<lparr>qber = 0, errors = 0, sampleSize = 0\<rparr>
   \<and> \<not> enableSecureMode six_qubits_unsampled
   \<and> js_slice_from [ONE, ZERO, ZERO, ZERO, ZERO] 0 = [ONE, ZERO, ZERO, ZERO, ZERO]
   \<and> js_slice_from [ONE, ONE, ZERO, ZERO, ONE] 0 = [ONE, ONE, ZERO, ZERO, ONE]
   \<and> error_correction (errorCorrectionBlockSize six_qubits_unsampled)
         [ONE, ZERO, ZERO, ZERO, ZERO] [ONE, ONE, ZERO, ZERO, ONE] =
       Some ([ONE, ONE, ZERO, ZERO, ONE], 0)
   \<and> \<not> keys_match [ONE, ZERO, ZERO, ZERO, ZERO] [ONE, ONE, ZERO, ZERO, ONE]
   \<and> (\<exists>r. runBB84Simulation echo_digest double_error_draws six_qubits_unsampled =
            Some (Inr r)
          \<and> LogKeysDoNotMatch \<in> set (log_lines r)
          \<and> finalKeyBob r = ''31313030310000000000000000000000''
          \<and> finalKeyAlice r = ''31313030310000000000000000000000'')"
proof -
  let ?p = six_qubits_unsampled
  let ?a = "[ONE, ZERO, ZERO, ZERO, ZERO]"
  let ?b = "[ONE, ONE, ZERO, ZERO, ONE]"
  let ?q = "\<lparr>qber = 0, errors = 0, sampleSize = 0\<rparr>"
  have h1: "numQubits ?p < 2 ^ 32" by (simp add: six_qubits_unsampled_def)
  have h2: "sifted_keys double_error_draws ?p = (?a, ?b)" by code_simp
  have h3: "?a \<noteq> []" by simp
  have h4: "?q = estimate_qber ?a ?b (qberSampleSize ?p)" by code_simp
  have s: "\<not> enableSecureMode ?p" by (simp add: six_qubits_unsampled_def)
  then have h5: "\<not> (enableSecureMode ?p \<and> QBER_THRESHOLD < qber ?q)" by simp
  have a: "js_slice_from ?a 0 = ?a" and b: "js_slice_from ?b 0 = ?b" by code_simp+
  have h6: "?a = js_slice_from ?a (sampleSize ?q)" and h7: "?b = js_slice_from ?b (sampleSize ?q)"
    using a b by simp_all
  have h8: "error_correction (errorCorrectionBlockSize ?p) ?a ?b = Some (?b, 0)" by code_simp
  have h9: "\<not> keys_match ?a ?b" by code_simp
  have v: "js_substring0 (sha256 echo_digest (map bit_char ?b))
             (desired_hex_length (privacyAmplificationLength ?p)) =
           ''31313030310000000000000000000000''" by code_simp
  show ?thesis
    using mismatch_proceeds_with_bob_key [OF h1 h2 h3 h4 h5 h6 h7 h8 h9, of echo_digest]
      h1 h2 h4 s a b h8 h9 v
    by (simp del: One_nat_def) metis
qed

section \<open>The QBER estimate\<close>

text \<open>
  What the estimate computes for a percentage between 0 and 100: the sample count is the
  ceiling of the binary64 product of the sifted length and the binary64 quotient of the
  percentage by 100, and lies between 0 and the sifted length; the errors are the
  mismatches among the first sample-count positions; the QBER is their binary64 quotient,
  0 for an empty sample; and the reconciliation gets the two keys without their first
  sample-count elements.
\<close>

lemma count_sample_errors_filter:
  "0 \<le> i \<Longrightarrow>
   count_sample_errors a b n i e =
     e + length (filter (\<lambda>j. js_index a (int j) \<noteq> js_index b (int j)) [nat i..<nat n])"
proof (induction "nat (n - i)" arbitrary: i e rule: less_induct)
  case less
  show ?case
  proof (cases "i < n")
    case True
    then have m: "nat (n - (i + 1)) < nat (n - i)" by simp
    have u: "[nat i..<nat n] = nat i # [nat (i + 1)..<nat n]"
      using True less.prems by (simp add: upt_conv_Cons nat_add_distrib)
    from less.hyps [OF m] less.prems True show ?thesis
      by (subst count_sample_errors.simps) (simp add: u)
  next
    case False
    then show ?thesis by (subst count_sample_errors.simps) simp
  qed
qed

lemma qber_stage:
  assumes "0 \<le> p" and "p \<le> 100" and "length sa < 2 ^ 53" and "length sb = length sa"
    and "q = estimate_qber sa sb p"
  shows "sampleSize q = \<lceil>fmul (of_nat (length sa)) (fdiv (of_int p) 100)\<rceil>"
    and "0 \<le> sampleSize q \<and> sampleSize q \<le> int (length sa)"
    and "errors q = length (filter (\<lambda>i. sa ! i \<noteq> sb ! i) [0..<nat (sampleSize q)])"
    and "qber q = (if sampleSize q = 0 then 0
                   else fdiv (of_nat (errors q)) (of_int (sampleSize q)))"
    and "js_slice_from sa (sampleSize q) = drop (nat (sampleSize q)) sa"
    and "js_slice_from sb (sampleSize q) = drop (nat (sampleSize q)) sb"
proof -
  show s: "sampleSize q = \<lceil>fmul (of_nat (length sa)) (fdiv (of_int p) 100)\<rceil>"
    by (simp add: assms(5) estimate_qber_def Let_def sample_count_def)
  show r: "0 \<le> sampleSize q \<and> sampleSize q \<le> int (length sa)"
    using sample_count_range [OF assms(1-3)]
    by (simp add: assms(5) estimate_qber_def Let_def)
  have "errors q = length (filter (\<lambda>j. js_index sa (int j) \<noteq> js_index sb (int j))
                            [0..<nat (sampleSize q)])"
    using count_sample_errors_filter [of 0 sa sb "sampleSize q" 0]
    by (simp add: assms(5) estimate_qber_def Let_def)
  also have "filter (\<lambda>j. js_index sa (int j) \<noteq> js_index sb (int j)) [0..<nat (sampleSize q)] =
             filter (\<lambda>i. sa ! i \<noteq> sb ! i) [0..<nat (sampleSize q)]"
    by (rule filter_cong [OF refl]) (use r assms(4) in \<open>auto simp: js_index_def\<close>)
  finally show "errors q = length (filter (\<lambda>i. sa ! i \<noteq> sb ! i) [0..<nat (sampleSize q)])" .
  show "qber q = (if sampleSize q = 0 then 0
                  else fdiv (of_nat (errors q)) (of_int (sampleSize q)))"
    using r by (auto simp: assms(5) estimate_qber_def Let_def)
  show "js_slice_from sa (sampleSize q) = drop (nat (sampleSize q)) sa"
    and "js_slice_from sb (sampleSize q) = drop (nat (sampleSize q)) sb"
    using r by (simp_all add: js_slice_from_drop)
qed

text \<open>
  Claim C4 gives the sample count as \<open>ceil(siftedKeyLength * qberSampleSize / 100)\<close>.
  The source divides first, \<^verbatim>\<open>Math.ceil(siftedKeyLength * (qberSampleSize / 100))\<close>, and
  the quotient is rounded: with 25 sifted bits and 28 percent, \<open>28 / 100\<close> is a number
  slightly above 0.28, its product with 25 is rounded to the number next above 7, and
  the ceiling is 8, where \<open>ceil(25 * 28 / 100)\<close> is 7. The run samples eight elements and
  leaves seventeen to reconcile.
\<close>

theorem sample_count_rounds_up:
  "fst (sifted_keys low_draws twenty_five_qubits) = replicate 25 ZERO
   \<and> fdiv 28 100 = 1261007895663739 / 4503599627370496
   \<and> fmul 25 (fdiv 28 100) = 7881299347898369 / 1125899906842624
   \<and> map_option (map_sum id qberResult)
        (runBB84Simulation constant_digest low_draws twenty_five_qubits) =
      Some (Inr (Some \<lparr>qber = 0, errors = 0, sampleSize = 8\<rparr>))
   \<and> map_option (map_sum id siftedKeyLength)
        (runBB84Simulation constant_digest low_draws twenty_five_qubits) = Some (Inr 17)
   \<and> \<lceil>(25 * 28 / 100 :: rat)\<rceil> = 7"
  by code_simp

section \<open>Error reconciliation\<close>



section \<open>Basis sifting\<close>

text \<open>
  Claim C6. After sifting, the two sifted keys have the same length, at most \<open>numQubits\<close>
  (a count, so not negative), and they hold, in transmission order, Alice's bit and Bob's
  measured bit at exactly the indices where Alice's and Bob's own bases are equal. Eve's
  bases play no part: the statement holds with Eve enabled or not.
\<close>

theorem sifted_keys_characterised:
  assumes "0 \<le> numQubits params"
    and "transmit rnd params = (aliceBits, aliceBases, bobBases, bobMeasuredBits)"
    and "sift aliceBases bobBases aliceBits bobMeasuredBits = (siftedAliceKey, siftedBobKey)"
  shows "sifted_keys rnd params = (siftedAliceKey, siftedBobKey)
       \<and> length siftedAliceKey = length siftedBobKey
       \<and> int (length siftedAliceKey) \<le> numQubits params
       \<and> siftedAliceKey =
           map (\<lambda>i. aliceBits ! i)
             (filter (\<lambda>i. aliceBases ! i = bobBases ! i) [0..<nat (numQubits params)])
       \<and> siftedBobKey =
           map (\<lambda>i. bobMeasuredBits ! i)
             (filter (\<lambda>i. aliceBases ! i = bobBases ! i) [0..<nat (numQubits params)])"
proof -
  let ?n = "nat (numQubits params)"
  let ?idx = "filter (\<lambda>i. aliceBases ! i = bobBases ! i) [0..<?n]"
  from transmit_lengths [OF assms(2)]
  have l: "length aliceBases = ?n" "length bobBases = ?n" "length aliceBits = ?n"
    "length bobMeasuredBits = ?n" by simp_all
  from sift_index [OF l] assms(3)
  have a: "siftedAliceKey = map (\<lambda>i. aliceBits ! i) ?idx"
    and b: "siftedBobKey = map (\<lambda>i. bobMeasuredBits ! i) ?idx" by simp_all
  have "length ?idx \<le> length [0..<?n]" by (rule length_filter_le)
  then have "int (length siftedAliceKey) \<le> numQubits params"
    using assms(1) a by simp
  moreover have "sifted_keys rnd params = (siftedAliceKey, siftedBobKey)"
    using assms(2,3) by (simp add: sifted_keys_def)
  ultimately show ?thesis using a b by simp
qed

text \<open>
  Six qubits with Eve enabled: the bases of Alice and Bob agree at indices 0 and 4, and
  at index 4 Bob's bit is not Alice's.
\<close>

theorem sifted_keys_characterised_witness:
  "0 \<le> numQubits six_qubits_with_eve
   \<and> transmit mixed_draws six_qubits_with_eve =
       ([ONE, ZERO, ONE, ZERO, ZERO, ONE],
        [DIAGONAL, DIAGONAL, RECTILINEAR, DIAGONAL, RECTILINEAR, RECTILINEAR],
        [DIAGONAL, RECTILINEAR, DIAGONAL, RECTILINEAR, RECTILINEAR, DIAGONAL],
        [ONE, ONE, ZERO, ONE, ONE, ZERO])
   \<and> sift [DIAGONAL, DIAGONAL, RECTILINEAR, DIAGONAL, RECTILINEAR, RECTILINEAR]
            [DIAGONAL, RECTILINEAR, DIAGONAL, RECTILINEAR, RECTILINEAR, DIAGONAL]
            [ONE, ZERO, ONE, ZERO, ZERO, ONE] [ONE, ONE, ZERO, ONE, ONE, ZERO] =
       ([ONE, ZERO], [ONE, ONE])
   \<and> sifted_keys mixed_draws six_qubits_with_eve = ([ONE, ZERO], [ONE, ONE])
   \<and> filter (\<lambda>i. [DIAGONAL, DIAGONAL, RECTILINEAR, DIAGONAL, RECTILINEAR, RECTILINEAR] ! i =
                   [DIAGONAL, RECTILINEAR, DIAGONAL, RECTILINEAR, RECTILINEAR, DIAGONAL] ! i)
         [0..<nat (numQubits six_qubits_with_eve)] = [0, 4]
   \<and> [ONE, ZERO] =
       map (\<lambda>i. [ONE, ZERO, ONE, ZERO, ZERO, ONE] ! i)
         (filter (\<lambda>i. [DIAGONAL, DIAGONAL, RECTILINEAR, DIAGONAL, RECTILINEAR, RECTILINEAR] ! i =
                        [DIAGONAL, RECTILINEAR, DIAGONAL, RECTILINEAR, RECTILINEAR, DIAGONAL] ! i)
            [0..<nat (numQubits six_qubits_with_eve)])
   \<and> [ONE, ONE] =
       map (\<lambda>i. [ONE, ONE, ZERO, ONE, ONE, ZERO] ! i)
         (filter (\<lambda>i. [DIAGONAL, DIAGONAL, RECTILINEAR, DIAGONAL, RECTILINEAR, RECTILINEAR] ! i =
                        [DIAGONAL, RECTILINEAR, DIAGONAL, RECTILINEAR, RECTILINEAR, DIAGONAL] ! i)
            [0..<nat (numQubits six_qubits_with_eve)])"
proof -
  have h1: "0 \<le> numQubits six_qubits_with_eve" by (simp add: six_qubits_with_eve_def)
  have h2: "transmit mixed_draws six_qubits_with_eve =
       ([ONE, ZERO, ONE, ZERO, ZERO, ONE],
        [DIAGONAL, DIAGONAL, RECTILINEAR, DIAGONAL, RECTILINEAR, RECTILINEAR],
        [DIAGONAL, RECTILINEAR, DIAGONAL, RECTILINEAR, RECTILINEAR, DIAGONAL],
        [ONE, ONE, ZERO, ONE, ONE, ZERO])" by code_simp
  have h3: "sift [DIAGONAL, DIAGONAL, RECTILINEAR, DIAGONAL, RECTILINEAR, RECTILINEAR]
            [DIAGONAL, RECTILINEAR, DIAGONAL, RECTILINEAR, RECTILINEAR, DIAGONAL]
            [ONE, ZERO, ONE, ZERO, ZERO, ONE] [ONE, ONE, ZERO, ONE, ONE, ZERO] =
       ([ONE, ZERO], [ONE, ONE])" by simp
  have h4: "filter (\<lambda>i. [DIAGONAL, DIAGONAL, RECTILINEAR, DIAGONAL, RECTILINEAR, RECTILINEAR] ! i =
                   [DIAGONAL, RECTILINEAR, DIAGONAL, RECTILINEAR, RECTILINEAR, DIAGONAL] ! i)
         [0..<nat (numQubits six_qubits_with_eve)] = [0, 4]" by code_simp
  show ?thesis
    using sifted_keys_characterised [OF h1 h2 h3] h1 h2 h3 h4 by simp
qed

section \<open>Runs without Eve\<close>



section \<open>Malformed parameters\<close>

text \<open>
  Claim C9 says that every malformed parameter record makes \<open>runBB84Simulation\<close> fail
  fast with an error. The function checks no field. With \<open>numQubits = -5\<close>, a
  percentage of 150, a block size of 0 and a negative amplification length,
  \<^verbatim>\<open>Array.from\<close> builds empty arrays, no loop runs, and the function returns the result
  of the empty-sift exit.
\<close>

theorem malformed_parameters_accepted:
  "runBB84Simulation constant_digest low_draws malformed_parameters =
     Some (Inr \<lparr>initialQubits = - 5, siftedKeyLength = 0, qberResult = None,
                eveDetected = False, errorsCorrected = 0, finalKeyAlice = [],
                finalKeyBob = [],
                log_lines =
                  [LogStarting, LogParameters malformed_parameters, LogAlicePrepared (- 5),
                   LogBobMeasured (- 5), LogSiftingCompleted 0, LogNoMatchingBases]\<rparr>)"
proof -
  have "numQubits malformed_parameters < 2 ^ 32" by (simp add: malformed_parameters_def)
  moreover have "sifted_keys low_draws malformed_parameters = ([], [])"
    by (rule sifted_keys_no_qubits) (simp add: malformed_parameters_def)
  ultimately show ?thesis
    by (simp add: run_unfold log_until_sifting_def malformed_parameters_def)
qed

text \<open>
  Claim C9, amended. \<open>runBB84Simulation\<close> validates no field of its parameters. It raises
  by itself exactly when \<open>numQubits\<close> is \<open>2^32\<close> or more: the RangeError of the first array
  construction, before any sequence exists. A record with \<open>numQubits \<le> 0\<close> is accepted
  and yields the result of the empty-sift exit, whatever its other fields hold; and with
  \<open>numQubits < 2^32\<close>, a positive block size and a sample count below \<open>2^53\<close> (as far
  as the sampling loop of the source counts) the run returns a result, also for a
  percentage outside 0 to 100 and an amplification length that is not positive.
\<close>

theorem no_parameter_validation:
  "(runBB84Simulation digest rnd params = Some (Inl RangeError) \<longleftrightarrow> 2 ^ 32 \<le> numQubits params)
   \<and> (numQubits params \<le> 0 \<longrightarrow>
        runBB84Simulation digest rnd params =
          Some (Inr \<lparr>initialQubits = numQubits params, siftedKeyLength = 0,
                     qberResult = None, eveDetected = False, errorsCorrected = 0,
                     finalKeyAlice = [], finalKeyBob = [],
                     log_lines = log_until_sifting params 0 @ [LogNoMatchingBases]\<rparr>))
   \<and> (numQubits params < 2 ^ 32 \<and> 0 < errorCorrectionBlockSize params
        \<and> sample_count (length (fst (sifted_keys rnd params))) (qberSampleSize params) < 2 ^ 53
        \<longrightarrow> (\<exists>r. runBB84Simulation digest rnd params = Some (Inr r)))"
proof (intro conjI impI)
  show "runBB84Simulation digest rnd params = Some (Inl RangeError) \<longleftrightarrow> 2 ^ 32 \<le> numQubits params"
  proof (cases "2 ^ 32 \<le> numQubits params")
    case True
    then show ?thesis by (simp add: runBB84Simulation_def)
  next
    case False
    obtain sa sb where s: "sifted_keys rnd params = (sa, sb)"
      by (cases "sifted_keys rnd params")
    from False have "numQubits params < 2 ^ 32" by simp
    from run_unfold [OF this s, of digest] False show ?thesis
      by (auto split: if_splits)
  qed
next
  assume n: "numQubits params \<le> 0"
  then have "numQubits params < 2 ^ 32" by simp
  from run_unfold [OF this sifted_keys_no_qubits [OF n], of digest]
  show "runBB84Simulation digest rnd params =
          Some (Inr \<lparr>initialQubits = numQubits params, siftedKeyLength = 0,
                     qberResult = None, eveDetected = False, errorsCorrected = 0,
                     finalKeyAlice = [], finalKeyBob = [],
                     log_lines = log_until_sifting params 0 @ [LogNoMatchingBases]\<rparr>)"
    by simp
next
  assume "numQubits params < 2 ^ 32 \<and> 0 < errorCorrectionBlockSize params
    \<and> sample_count (length (fst (sifted_keys rnd params))) (qberSampleSize params) < 2 ^ 53"
  then show "\<exists>r. runBB84Simulation digest rnd params = Some (Inr r)"
    using run_returns by blast
qed

text \<open>
  The three parts at \<open>numQubits = 2^32\<close>, at the malformed record above, and at six
  qubits with a percentage of 150 and an amplification length of \<open>-4\<close>, where the
  sample count is 9 for a sifted key of 6 bits.
\<close>

theorem no_parameter_validation_witness:
  "(runBB84Simulation constant_digest low_draws (default_parameters\<lparr>numQubits := 2 ^ 32\<rparr>)
      = Some (Inl RangeError))
   \<and> numQubits malformed_parameters \<le> 0
   \<and> runBB84Simulation constant_digest low_draws malformed_parameters =
       Some (Inr \<lparr>initialQubits = numQubits malformed_parameters, siftedKeyLength = 0,
                  qberResult = None, eveDetected = False, errorsCorrected = 0,
                  finalKeyAlice = [], finalKeyBob = [],
                  log_lines = log_until_sifting malformed_parameters 0 @ [LogNoMatchingBases]\<rparr>)
   \<and> numQubits six_qubits_out_of_range < 2 ^ 32
   \<and> 0 < errorCorrectionBlockSize six_qubits_out_of_range
   \<and> length (fst (sifted_keys low_draws six_qubits_out_of_range)) = 6
   \<and> sample_count 6 (qberSampleSize six_qubits_out_of_range) = 9
   \<and> (\<exists>r. runBB84Simulation constant_digest low_draws six_qubits_out_of_range = Some (Inr r))"
proof -
  let ?big = "default_parameters\<lparr>numQubits := 2 ^ 32\<rparr>"
  let ?pct = six_qubits_out_of_range
  have a: "2 ^ 32 \<le> numQubits ?big" by (simp add: default_parameters_def)
  have b: "numQubits malformed_parameters \<le> 0" by (simp add: malformed_parameters_def)
  have c: "numQubits ?pct < 2 ^ 32" "0 < errorCorrectionBlockSize ?pct"
    by (simp_all add: six_qubits_out_of_range_def)
  have l: "length (fst (sifted_keys low_draws ?pct)) = 6" by code_simp
  have n: "sample_count 6 (qberSampleSize ?pct) = 9" by code_simp
  have d: "sample_count (length (fst (sifted_keys low_draws ?pct))) (qberSampleSize ?pct) < 2 ^ 53"
    by (simp add: l n)
  show ?thesis
    using no_parameter_validation [of constant_digest low_draws ?big]
      no_parameter_validation [of constant_digest low_draws malformed_parameters]
      no_parameter_validation [of constant_digest low_draws ?pct] a b c d l n
    by blast
qed

section \<open>The field siftedKeyLength\<close>

text \<open>
  Claim C10. The field \<open>siftedKeyLength\<close> of a returned result is not the same quantity
  on every exit. For a percentage between 0 and 100 it is 0 on the empty-sift exit, the
  length of the sifted key on the eavesdropper-detected exit and on the exit with an empty
  reconciled key (which has the length of the remainder after the sample), and the length
  of the sifted key minus the sample count on the completed path.
\<close>

theorem sifted_key_length_field_by_exit:
  assumes "numQubits params < 2 ^ 32"
    and "0 \<le> qberSampleSize params" and "qberSampleSize params \<le> 100"
    and "sifted_keys rnd params = (siftedAliceKey, siftedBobKey)"
    and "q = estimate_qber siftedAliceKey siftedBobKey (qberSampleSize params)"
    and "runBB84Simulation digest rnd params = Some (Inr r)"
  shows "siftedKeyLength r =
     (if siftedAliceKey = [] then 0
      else if enableSecureMode params \<and> QBER_THRESHOLD < qber q then length siftedAliceKey
      else if js_slice_from siftedAliceKey (sampleSize q) = [] then length siftedAliceKey
      else length siftedAliceKey - nat (sampleSize q))"
proof (cases "siftedAliceKey = []")
  case True
  then show ?thesis using run_unfold [OF assms(1,4), of digest] assms(6) by auto
next
  case ne: False
  show ?thesis
  proof (cases "enableSecureMode params \<and> QBER_THRESHOLD < qber q")
    case True
    then show ?thesis using run_detected [OF assms(1,4) ne assms(5), of digest] assms(6) ne by auto
  next
    case False
    let ?remA = "js_slice_from siftedAliceKey (sampleSize q)"
    let ?remB = "js_slice_from siftedBobKey (sampleSize q)"
    from run_continues_result [OF assms(1,4) ne assms(5) False refl refl assms(6)]
    obtain state lg where
      st: "error_correction (errorCorrectionBlockSize params) ?remA ?remB = Some state"
      and r: "r = privacy_amplification digest params (length siftedAliceKey) (length ?remA) q lg state"
      by auto
    have "length (fst state) = length ?remB"
      using st ec_loop_length unfolding error_correction_def by fastforce
    also have "\<dots> = length ?remA"
      using sifted_keys_lengths [OF assms(4)] js_slice_from_length by metis
    finally have e: "fst state = [] \<longleftrightarrow> ?remA = []" by auto
    from run_sample_count_range [OF assms(1-4)] assms(5)
    have "0 \<le> sampleSize q" by simp
    then have "length ?remA = length siftedAliceKey - nat (sampleSize q)"
      by (simp add: js_slice_from_drop)
    with r e ne False show ?thesis by (auto simp: privacy_amplification_fields)
  qed
qed

text \<open>
  The same draws and a sifted key of three bits: with a sample of 50 percent the run
  completes and reports 1; with a sample of 100 percent nothing is left to reconcile and
  it reports 3.
\<close>

theorem sifted_key_length_field_by_exit_witness:
  "numQubits six_qubits_without_eve < 2 ^ 32
   \<and> 0 \<le> qberSampleSize six_qubits_without_eve \<and> qberSampleSize six_qubits_without_eve \<le> 100
   \<and> sifted_keys mixed_draws six_qubits_without_eve = ([ONE, ZERO, ONE], [ONE, ZERO, ONE])
   \<and> estimate_qber [ONE, ZERO, ONE] [ONE, ZERO, ONE] (qberSampleSize six_qubits_without_eve) =
       \<lparr>qber = 0, errors = 0, sampleSize = 2\<rparr>
   \<and> (\<exists>r. runBB84Simulation constant_digest mixed_draws six_qubits_without_eve = Some (Inr r)
          \<and> siftedKeyLength r = 1 \<and> finalKeyAlice r = ''aba'')
   \<and> sifted_keys mixed_draws (six_qubits_without_eve\<lparr>qberSampleSize := 100\<rparr>) =
       ([ONE, ZERO, ONE], [ONE, ZERO, ONE])
   \<and> estimate_qber [ONE, ZERO, ONE] [ONE, ZERO, ONE] 100 =
       \<lparr>qber = 0, errors = 0, sampleSize = 3\<rparr>
   \<and> (\<exists>r. runBB84Simulation constant_digest mixed_draws
              (six_qubits_without_eve\<lparr>qberSampleSize := 100\<rparr>) = Some (Inr r)
          \<and> siftedKeyLength r = 3 \<and> finalKeyAlice r = [])"
proof -
  let ?p = six_qubits_without_eve
  let ?p' = "six_qubits_without_eve\<lparr>qberSampleSize := 100\<rparr>"
  let ?k = "[ONE, ZERO, ONE]"
  have h1: "numQubits ?p < 2 ^ 32" and h2: "0 \<le> qberSampleSize ?p"
    and h3: "qberSampleSize ?p \<le> 100"
    by (simp_all add: six_qubits_without_eve_def)
  have h4: "sifted_keys mixed_draws ?p = (?k, ?k)" by code_simp
  have h5: "\<lparr>qber = 0, errors = 0, sampleSize = 2\<rparr> = estimate_qber ?k ?k (qberSampleSize ?p)"
    by code_simp
  have g1: "numQubits ?p' < 2 ^ 32" and g2: "0 \<le> qberSampleSize ?p'"
    and g3: "qberSampleSize ?p' \<le> 100"
    by (simp_all add: six_qubits_without_eve_def)
  have g4: "sifted_keys mixed_draws ?p' = (?k, ?k)" by code_simp
  have g5: "\<lparr>qber = 0, errors = 0, sampleSize = 3\<rparr> = estimate_qber ?k ?k (qberSampleSize ?p')"
    by code_simp
  have t: "\<not> QBER_THRESHOLD < 0" by code_simp
  have s2: "js_slice_from ?k 2 \<noteq> []" and s3: "js_slice_from ?k 3 = []" by code_simp+
  obtain r where r: "runBB84Simulation constant_digest mixed_draws ?p = Some (Inr r)"
    using run_returns [OF h1, of constant_digest mixed_draws]
    by (auto simp: six_qubits_without_eve_def)
  obtain r' where r': "runBB84Simulation constant_digest mixed_draws ?p' = Some (Inr r')"
    using run_returns [OF g1, of constant_digest mixed_draws]
    by (auto simp: six_qubits_without_eve_def)
  have k: "finalKeyAlice (projr (the (runBB84Simulation constant_digest mixed_draws ?p))) = ''aba''"
    by code_simp
  have k': "finalKeyAlice (projr (the (runBB84Simulation constant_digest mixed_draws ?p'))) = []"
    by code_simp
  have "siftedKeyLength r = 1"
    using sifted_key_length_field_by_exit [OF h1 h2 h3 h4 h5 r] t s2 by simp
  moreover have "siftedKeyLength r' = 3"
    using sifted_key_length_field_by_exit [OF g1 g2 g3 g4 g5 r'] t s3 by simp
  ultimately show ?thesis
    using h1 h2 h3 h4 h5 g4 g5 r r' k k' by (simp del: One_nat_def)
qed

end
